theory Spec2Isabelle
  imports Main "HOL-Library.Sublist"
begin

section \<open>Data model (app/models.py)\<close>

text \<open>
  The enums of \<^verbatim>\<open>app/models.py\<close>. The columns that hold them are string columns; the
  code only ever stores the enum values in them (the role is validated in the admin
  router, the status is assigned from \<^verbatim>\<open>CRStatus\<close>, the action is validated in
  \<^verbatim>\<open>add_file_to_cr\<close>), so each column is modelled by the enum itself.
\<close>

datatype UserRole = admin | approver | editor | viewer

datatype CRStatus = draft | pending_review | approved | rejected | merged | closed

datatype FileAction = create | edit | delete

type_synonym bytes = string
type_synonym timestamp = nat

record User =
  uid :: int
  username :: string
  role :: UserRole

record FileVersion =
  fv_id :: int
  fv_file_path :: string
  fv_version :: int
  fv_s3_key :: string
  fv_size :: int
  fv_content_hash :: string
  fv_author_id :: int
  fv_message :: string
  fv_is_delete :: bool
  fv_created_at :: timestamp

record ChangeRequest =
  cr_id :: int
  cr_title :: string
  cr_description :: string
  cr_status :: CRStatus
  cr_author_id :: int
  cr_reviewer_id :: "int option"
  cr_review_comment :: "string option"
  cr_reviewed_at :: "timestamp option"
  cr_merged_at :: "timestamp option"
  cr_created_at :: timestamp
  cr_updated_at :: timestamp

record ChangeRequestFile =
  crf_id :: int
  crf_change_request_id :: int
  crf_file_path :: string
  crf_action :: FileAction
  crf_staging_s3_key :: "string option"
  crf_base_version_id :: "int option"
  crf_created_at :: timestamp

record AuditLog =
  al_user_id :: int
  al_action :: string
  al_resource_type :: string
  al_resource_id :: string
  al_details :: "(string \<times> int) list"

record FileShare =
  fs_id :: int
  fs_file_path :: string
  fs_token :: string
  fs_is_public :: bool
  fs_is_archived :: bool
  fs_created_by_id :: int

text \<open>
  The state of the system: the tables of the metadata store (rows in insertion order),
  the autoincrement counters of the tables that the modelled routes insert into, the
  object store as a map from key to body and content type, the reading of the wall
  clock, and the number of UUIDs drawn so far. The audit log keeps the fields the
  routes fill from the request's data; the client address and the timestamp of an
  audit row are left out.
\<close>

record state =
  users :: "User list"
  file_versions :: "FileVersion list"
  change_requests :: "ChangeRequest list"
  change_request_files :: "ChangeRequestFile list"
  file_shares :: "FileShare list"
  audit_logs :: "AuditLog list"
  next_fv_id :: int
  next_cr_id :: int
  next_crf_id :: int
  s3_objects :: "string \<rightharpoonup> (bytes \<times> string)"
  clock :: timestamp
  uuid_count :: nat

text \<open>
  Library functions the routes call and that are not code of the repository:
  \<^verbatim>\<open>hashlib.sha256(b).hexdigest()\<close>, \<^verbatim>\<open>str.encode("utf-8")\<close>,
  \<^verbatim>\<open>bytes.decode("utf-8", errors="replace")\<close> and \<^verbatim>\<open>uuid.uuid4().hex\<close> (the
  \<open>n\<close>-th UUID drawn). They are parameters of the model.
\<close>

record lib =
  sha256_hexdigest :: "bytes \<Rightarrow> string"
  utf8_encode :: "string \<Rightarrow> bytes"
  utf8_decode :: "bytes \<Rightarrow> string"
  uuid4_hex :: "nat \<Rightarrow> string"

section \<open>Errors and results\<close>

datatype http_error = HTTPException nat string

text \<open>
  A request either raises (left) or returns a value (right); both carry the state the
  request leaves behind.
\<close>

type_synonym 'a result = "(http_error \<times> state) + ('a \<times> state)"

text \<open>
  Modelled from the spec: \<^verbatim>\<open>app/database.py\<close> (\<^verbatim>\<open>get_db\<close>, the session every route
  depends on) is not among the sources. Section 7 of the specification says that a
  request runs inside one metadata transaction which rolls back fully when the request
  fails. The object store is not transactional: what a failing request has already done
  to it stays, and so do the UUIDs it has drawn.
\<close>

definition rollback :: "state \<Rightarrow> state \<Rightarrow> state" where
  "rollback s0 s = s0\<lparr>s3_objects := s3_objects s, uuid_count := uuid_count s\<rparr>"

definition raise_http :: "state \<Rightarrow> state \<Rightarrow> nat \<Rightarrow> string \<Rightarrow> 'a result" where
  "raise_http s0 s code detail = Inl (HTTPException code detail, rollback s0 s)"

text \<open>
  Modelled from the spec: the commits of the session are in \<^verbatim>\<open>app/database.py\<close> too.
  Section 5 of the specification says that a merge that fails partway through its loop
  leaves the effects of the operations before the failing one committed; the merge route
  therefore raises with the state the loop has reached.
\<close>

definition raise_partial :: "state \<Rightarrow> nat \<Rightarrow> string \<Rightarrow> 'a result" where
  "raise_partial s code detail = Inl (HTTPException code detail, s)"

section \<open>Python string helpers\<close>

definition strip_slash :: "string \<Rightarrow> string" where
  \<comment> \<open>\<^verbatim>\<open>path.strip("/")\<close>\<close>
  "strip_slash p =
     rev (dropWhile (\<lambda>c. c = CHR ''/'') (rev (dropWhile (\<lambda>c. c = CHR ''/'') p)))"

definition is_space :: "char \<Rightarrow> bool" where
  \<comment> \<open>the characters for which \<^verbatim>\<open>str.isspace\<close> holds, a character standing for
      its code point (below 256): the ASCII white space, the separators U+001C to U+001F,
      U+0085 and U+00A0\<close>
  "is_space c = (c \<in> set [CHR '' '', CHR 0x09, CHR 0x0A, CHR 0x0B, CHR 0x0C, CHR 0x0D,
                           CHR 0x1C, CHR 0x1D, CHR 0x1E, CHR 0x1F, CHR 0x85, CHR 0xA0])"

definition strip_ws :: "string \<Rightarrow> string" where
  \<comment> \<open>\<^verbatim>\<open>title.strip()\<close>\<close>
  "strip_ws t = rev (dropWhile is_space (rev (dropWhile is_space t)))"

definition startswith :: "string \<Rightarrow> string \<Rightarrow> bool" where
  "startswith p pre = prefix pre p"

definition rsplit_last :: "char \<Rightarrow> string \<Rightarrow> string" where
  \<comment> \<open>\<^verbatim>\<open>p.rsplit(c, 1)[-1]\<close>: what follows the last \<open>c\<close>, all of \<open>p\<close> when there is none\<close>
  "rsplit_last c p = rev (takeWhile (\<lambda>x. x \<noteq> c) (rev p))"

definition lower_char :: "char \<Rightarrow> char" where
  "lower_char c =
     (case map_of (zip ''ABCDEFGHIJKLMNOPQRSTUVWXYZ'' ''abcdefghijklmnopqrstuvwxyz'') c of
        Some d \<Rightarrow> d
      | None \<Rightarrow> c)"

definition lower :: "string \<Rightarrow> string" where
  "lower p = map lower_char p"

fun string_of_nat :: "nat \<Rightarrow> string" where
  "string_of_nat n =
     (if n < 10 then [char_of (48 + n)]
      else string_of_nat (n div 10) @ [char_of (48 + n mod 10)])"

declare string_of_nat.simps [simp del]

definition str_int :: "int \<Rightarrow> string" where
  \<comment> \<open>\<^verbatim>\<open>str(i)\<close>\<close>
  "str_int i = (if i < 0 then CHR ''-'' # string_of_nat (nat (- i)) else string_of_nat (nat i))"

section \<open>The object store (app/s3.py)\<close>

text \<open>
  \<^verbatim>\<open>settings.s3_prefix\<close> is the same for every call, so keys are modelled without it.
  \<^verbatim>\<open>get_object\<close> raises when the key is absent (\<open>None\<close> here); \<^verbatim>\<open>put_object\<close>
  overwrites; \<^verbatim>\<open>delete_object\<close> of an absent key does nothing. Failures of the
  network are not modelled.
\<close>

definition content_types :: "(string \<times> string) list" where
  "content_types =
    [(''html'', ''text/html''), (''css'', ''text/css''), (''js'', ''application/javascript''),
     (''json'', ''application/json''), (''xml'', ''application/xml''), (''yaml'', ''text/yaml''),
     (''yml'', ''text/yaml''), (''md'', ''text/markdown''), (''txt'', ''text/plain''),
     (''py'', ''text/x-python''), (''rb'', ''text/x-ruby''), (''go'', ''text/x-go''),
     (''rs'', ''text/x-rust''), (''java'', ''text/x-java''), (''ts'', ''text/typescript''),
     (''tsx'', ''text/typescript''), (''jsx'', ''text/javascript''), (''sh'', ''text/x-shellscript''),
     (''sql'', ''text/x-sql''), (''csv'', ''text/csv''), (''svg'', ''image/svg+xml''),
     (''png'', ''image/png''), (''jpg'', ''image/jpeg''), (''jpeg'', ''image/jpeg''),
     (''gif'', ''image/gif''), (''pdf'', ''application/pdf''), (''zip'', ''application/zip''),
     (''tar'', ''application/x-tar''), (''gz'', ''application/gzip'')]"

definition guess_content_type :: "string \<Rightarrow> string" where
  "guess_content_type path =
     (let ext = (if CHR ''.'' \<in> set path then lower (rsplit_last (CHR ''.'') path) else [])
      in case map_of content_types ext of
           Some ct \<Rightarrow> ct
         | None \<Rightarrow> ''application/octet-stream'')"

definition is_text_file :: "string \<Rightarrow> bool" where
  "is_text_file path =
     (let ct = guess_content_type path
      in startswith ct ''text/'' \<or>
         ct \<in> set [''application/json'', ''application/javascript'', ''application/xml'',
                    ''application/x-yaml'', ''text/markdown'', ''text/x-python''])"

definition get_object :: "state \<Rightarrow> string \<Rightarrow> bytes option" where
  "get_object s key = map_option fst (s3_objects s key)"

definition put_object :: "string \<Rightarrow> bytes \<Rightarrow> string \<Rightarrow> state \<Rightarrow> state" where
  "put_object key content content_type s =
     s\<lparr>s3_objects := (s3_objects s)(key \<mapsto> (content, content_type))\<rparr>"

definition delete_object :: "string \<Rightarrow> state \<Rightarrow> state" where
  "delete_object key s = s\<lparr>s3_objects := (s3_objects s)(key := None)\<rparr>"

definition generate_version_key :: "lib \<Rightarrow> state \<Rightarrow> string \<times> state" where
  "generate_version_key L s =
     (''_versions/'' @ uuid4_hex L (uuid_count s), s\<lparr>uuid_count := Suc (uuid_count s)\<rparr>)"

definition generate_staging_key :: "lib \<Rightarrow> state \<Rightarrow> string \<times> state" where
  "generate_staging_key L s =
     (''_staging/'' @ uuid4_hex L (uuid_count s), s\<lparr>uuid_count := Suc (uuid_count s)\<rparr>)"

definition compute_hash :: "lib \<Rightarrow> bytes \<Rightarrow> string" where
  "compute_hash L content = sha256_hexdigest L content"

section \<open>Authorisation (app/auth.py)\<close>

text \<open>
  Authentication (\<^verbatim>\<open>get_current_user\<close>) is outside the model: a route receives the
  authenticated, active user. \<^verbatim>\<open>require_role\<close> is the dependency that runs before the
  body of a route.
\<close>

definition WRITE_ROLES :: "UserRole set" where
  "WRITE_ROLES = {admin, approver, editor}"

definition require_role :: "UserRole set \<Rightarrow> User \<Rightarrow> bool" where
  "require_role roles user = (role user \<in> roles)"

section \<open>Queries\<close>

text \<open>
  The identifiers and version numbers of a request are Python integers, and the tables
  hold them in integer columns. The queries are modelled for the integers that the
  database driver accepts as a parameter of such a column. For an integer outside that
  range the driver refuses the statement and the request ends with an unhandled error,
  where the query of the model finds no row. The rows of a table carry identifiers
  within the range, so a change request that \<^verbatim>\<open>find_cr\<close> finds in a state of the
  database is one that the query of the route returns.
\<close>

definition find_cr :: "state \<Rightarrow> int \<Rightarrow> ChangeRequest option" where
  \<comment> \<open>\<^verbatim>\<open>select(ChangeRequest).where(ChangeRequest.id == cr_id)\<close>; the id is the primary key\<close>
  "find_cr s i = find (\<lambda>c. cr_id c = i) (change_requests s)"

definition cr_files :: "state \<Rightarrow> int \<Rightarrow> ChangeRequestFile list" where
  \<comment> \<open>the relationship \<^verbatim>\<open>cr.files\<close>\<close>
  "cr_files s i = filter (\<lambda>f. crf_change_request_id f = i) (change_request_files s)"

definition update_cr :: "int \<Rightarrow> (ChangeRequest \<Rightarrow> ChangeRequest) \<Rightarrow> state \<Rightarrow> state" where
  \<comment> \<open>an UPDATE of the row; \<^verbatim>\<open>onupdate=utcnow\<close> sets \<^verbatim>\<open>updated_at\<close>\<close>
  "update_cr i f s =
     s\<lparr>change_requests :=
         map (\<lambda>c. if cr_id c = i then (f c)\<lparr>cr_updated_at := clock s\<rparr> else c)
             (change_requests s)\<rparr>"

definition add_audit :: "int \<Rightarrow> string \<Rightarrow> string \<Rightarrow> string \<Rightarrow> (string \<times> int) list \<Rightarrow> state \<Rightarrow> state" where
  "add_audit u act rt rid det s =
     s\<lparr>audit_logs := audit_logs s @
         [\<lparr>al_user_id = u, al_action = act, al_resource_type = rt, al_resource_id = rid,
           al_details = det\<rparr>]\<rparr>"

fun latest_of :: "FileVersion list \<Rightarrow> FileVersion option" where
  "latest_of [] = None"
| "latest_of (v # vs) =
     (case latest_of vs of
        None \<Rightarrow> Some v
      | Some w \<Rightarrow> if fv_version v < fv_version w then Some w else Some v)"

definition get_latest_version :: "state \<Rightarrow> string \<Rightarrow> FileVersion option" where
  \<comment> \<open>\<^verbatim>\<open>_get_latest_version\<close>: order by version descending, limit 1\<close>
  "get_latest_version s file_path =
     latest_of (filter (\<lambda>v. fv_file_path v = file_path) (file_versions s))"

definition max_version :: "state \<Rightarrow> string \<Rightarrow> int option" where
  \<comment> \<open>\<^verbatim>\<open>select(func.max(FileVersion.version)).where(FileVersion.file_path == file_path)\<close>\<close>
  "max_version s file_path =
     (case map fv_version (filter (\<lambda>v. fv_file_path v = file_path) (file_versions s)) of
        [] \<Rightarrow> None
      | x # xs \<Rightarrow> Some (fold max xs x))"

definition get_next_version :: "state \<Rightarrow> string \<Rightarrow> int" where
  \<comment> \<open>\<^verbatim>\<open>_get_next_version\<close>: \<^verbatim>\<open>(current or 0) + 1\<close>\<close>
  "get_next_version s file_path =
     (case max_version s file_path of
        None \<Rightarrow> 0
      | Some current \<Rightarrow> if current = 0 then 0 else current) + 1"

section \<open>Change requests (the router of change requests)\<close>

record CreateCRRequest =
  ccr_title :: string
  ccr_description :: string

record UpdateCRRequest =
  ucr_title :: "string option"
  ucr_description :: "string option"

record AddFileRequest =
  afr_file_path :: string
  afr_action :: string
  afr_content :: "string option"

record ReviewRequest =
  rr_action :: string
  rr_comment :: string

definition FileAction_of :: "string \<Rightarrow> FileAction option" where
  \<comment> \<open>the enum member whose value is the string, if any\<close>
  "FileAction_of a =
     (if a = ''create'' then Some create
      else if a = ''edit'' then Some edit
      else if a = ''delete'' then Some delete
      else None)"

definition create_change_request ::
  "state \<Rightarrow> CreateCRRequest \<Rightarrow> User \<Rightarrow> (int \<times> string \<times> CRStatus) result" where
  "create_change_request s req user =
     (if \<not> require_role {admin, approver, editor} user
      then raise_http s s 403 ''Insufficient permissions''
      else if strip_ws (ccr_title req) = [] then raise_http s s 400 ''Title is required''
      else
        let cr = \<lparr>cr_id = next_cr_id s, cr_title = strip_ws (ccr_title req),
                  cr_description = ccr_description req, cr_status = draft,
                  cr_author_id = uid user, cr_reviewer_id = None, cr_review_comment = None,
                  cr_reviewed_at = None, cr_merged_at = None,
                  cr_created_at = clock s, cr_updated_at = clock s\<rparr>;
            s1 = s\<lparr>change_requests := change_requests s @ [cr],
                   next_cr_id := next_cr_id s + 1\<rparr>;
            s2 = add_audit (uid user) ''cr.create'' ''change_request'' (str_int (cr_id cr)) [] s1
        in Inr ((cr_id cr, cr_title cr, cr_status cr), s2))"

definition update_change_request ::
  "state \<Rightarrow> int \<Rightarrow> UpdateCRRequest \<Rightarrow> User \<Rightarrow> bool result" where
  "update_change_request s cid req user =
     (if \<not> require_role {admin, approver, editor} user
      then raise_http s s 403 ''Insufficient permissions''
      else case find_cr s cid of
        None \<Rightarrow> raise_http s s 404 ''Change request not found''
      | Some cr \<Rightarrow>
          if cr_author_id cr \<noteq> uid user \<and> role user \<noteq> admin
          then raise_http s s 403 ''Only the author or admin can update this CR''
          else if cr_status cr \<notin> {draft, rejected}
          then raise_http s s 400 ''Can only edit draft or rejected CRs''
          else
            let s1 = (case ucr_title req of
                        None \<Rightarrow> s
                      | Some t \<Rightarrow> update_cr cid (\<lambda>c. c\<lparr>cr_title := strip_ws t\<rparr>) s);
                s2 = (case ucr_description req of
                        None \<Rightarrow> s1
                      | Some d \<Rightarrow> update_cr cid (\<lambda>c. c\<lparr>cr_description := d\<rparr>) s1)
            in Inr (True, s2))"

definition discard_staged :: "ChangeRequestFile \<Rightarrow> state \<Rightarrow> state" where
  \<comment> \<open>\<^verbatim>\<open>if e.staging_s3_key: try: await s3.delete_object(e.staging_s3_key) ...\<close>\<close>
  "discard_staged e s =
     (case crf_staging_s3_key e of
        None \<Rightarrow> s
      | Some k \<Rightarrow> if k \<noteq> [] then delete_object k s else s)"

definition db_delete_crf :: "ChangeRequestFile \<Rightarrow> state \<Rightarrow> state" where
  \<comment> \<open>\<^verbatim>\<open>await db.delete(e)\<close>\<close>
  "db_delete_crf e s =
     s\<lparr>change_request_files := filter (\<lambda>f. crf_id f \<noteq> crf_id e) (change_request_files s)\<rparr>"

definition remove_entries :: "ChangeRequestFile list \<Rightarrow> state \<Rightarrow> state" where
  \<comment> \<open>the loop \<^verbatim>\<open>for e in existing\<close>\<close>
  "remove_entries es s = fold (\<lambda>e s'. db_delete_crf e (discard_staged e s')) es s"

definition db_add_crf ::
  "int \<Rightarrow> string \<Rightarrow> FileAction \<Rightarrow> string option \<Rightarrow> int option \<Rightarrow> state \<Rightarrow> ChangeRequestFile \<times> state" where
  \<comment> \<open>\<^verbatim>\<open>db.add(crf); await db.flush()\<close>\<close>
  "db_add_crf cid file_path action staging_key base_version_id s =
     (let crf = \<lparr>crf_id = next_crf_id s, crf_change_request_id = cid,
                  crf_file_path = file_path, crf_action = action,
                  crf_staging_s3_key = staging_key, crf_base_version_id = base_version_id,
                  crf_created_at = clock s\<rparr>
      in (crf, s\<lparr>change_request_files := change_request_files s @ [crf],
                 next_crf_id := next_crf_id s + 1\<rparr>))"

definition stage_content ::
  "lib \<Rightarrow> string \<Rightarrow> bytes \<Rightarrow> state \<Rightarrow> string \<times> state" where
  \<comment> \<open>\<^verbatim>\<open>staging_key = S3Service.generate_staging_key(); await s3.put_object(staging_key, ...)\<close>\<close>
  "stage_content L file_path content_bytes s =
     (let (k, s') = generate_staging_key L s
      in (k, put_object k content_bytes (guess_content_type file_path) s'))"

definition is_live :: "FileVersion option \<Rightarrow> bool" where
  \<comment> \<open>\<^verbatim>\<open>latest and not latest.is_delete\<close>\<close>
  "is_live latest = (case latest of None \<Rightarrow> False | Some v \<Rightarrow> \<not> fv_is_delete v)"

text \<open>
  The session sends the statements it has queued when it is flushed, the INSERTs before
  the DELETEs. In \<^verbatim>\<open>add_file_to_cr\<close> and \<^verbatim>\<open>_stage_file_in_cr\<close> the rows of
  \<^verbatim>\<open>existing\<close> are only queued for deletion. For an edit or a delete the query for
  the latest version flushes the session, so the DELETEs are sent before the new row is
  added. For a create there is no such query: \<^verbatim>\<open>db.flush()\<close> sends the INSERT of the
  new row first, and when \<^verbatim>\<open>existing\<close> is not empty the INSERT violates the unique
  index \<^verbatim>\<open>ix_cr_files_cr_path\<close> on the change request and the path: the request fails
  with an unhandled error (500), after the staged blobs of \<^verbatim>\<open>existing\<close> have been
  discarded and the new blob has been uploaded.
\<close>

definition add_file_to_cr ::
  "lib \<Rightarrow> state \<Rightarrow> int \<Rightarrow> AddFileRequest \<Rightarrow> User \<Rightarrow> (int \<times> string \<times> FileAction) result" where
  "add_file_to_cr L s cid req user =
     (if \<not> require_role {admin, approver, editor} user
      then raise_http s s 403 ''Insufficient permissions''
      else case find_cr s cid of
        None \<Rightarrow> raise_http s s 404 ''Change request not found''
      | Some cr \<Rightarrow>
          if cr_author_id cr \<noteq> uid user \<and> role user \<noteq> admin
          then raise_http s s 403 ''Only the author or admin can modify files''
          else if cr_status cr \<notin> {draft, rejected}
          then raise_http s s 400 ''Can only modify files in draft or rejected CRs''
          else
            let file_path = strip_slash (afr_file_path req) in
            if file_path = [] then raise_http s s 400 ''File path is required''
            else (case FileAction_of (afr_action req) of
              None \<Rightarrow> raise_http s s 400 ''Action must be create, edit, or delete''
            | Some action \<Rightarrow>
                let existing = filter (\<lambda>f. crf_file_path f = file_path) (cr_files s cid);
                    s1 = remove_entries existing s
                in
                if action \<in> {create, edit} \<and> afr_content req = None
                then raise_http s s1 400 ''Content is required for create/edit actions''
                else
                  let (staging_key, s2) =
                        (if action \<in> {create, edit}
                         then
                           let (k, s') = stage_content L file_path
                                           (utf8_encode L (the (afr_content req))) s1
                           in (Some k, s')
                         else (None, s1));
                      latest = (if action \<in> {edit, delete}
                                then get_latest_version s2 file_path else None)
                  in
                  if action \<in> {edit, delete} \<and> \<not> is_live latest \<and> action = edit
                  then raise_http s s2 404 ''File does not exist, use 'create' action''
                  else if action \<notin> {edit, delete} \<and> existing \<noteq> []
                  then raise_http s s2 500 ''Internal Server Error''
                  else
                    let base_version_id =
                          (if action \<in> {edit, delete} \<and> is_live latest
                           then map_option fv_id latest else None);
                        (crf, s3) = db_add_crf cid file_path action staging_key base_version_id s2
                    in Inr ((crf_id crf, file_path, action), s3)))"

definition remove_file_from_cr :: "state \<Rightarrow> int \<Rightarrow> int \<Rightarrow> User \<Rightarrow> bool result" where
  "remove_file_from_cr s cid file_id user =
     (if \<not> require_role {admin, approver, editor} user
      then raise_http s s 403 ''Insufficient permissions''
      else case find_cr s cid of
        None \<Rightarrow> raise_http s s 404 ''Change request not found''
      | Some cr \<Rightarrow>
          if cr_author_id cr \<noteq> uid user \<and> role user \<noteq> admin
          then raise_http s s 403 ''Only the author or admin can modify files''
          else
            (case find (\<lambda>f. crf_id f = file_id \<and> crf_change_request_id f = cid)
                      (change_request_files s) of
              None \<Rightarrow> raise_http s s 404 ''File entry not found''
            | Some crf \<Rightarrow> Inr (True, db_delete_crf crf (discard_staged crf s))))"

definition submit_for_review :: "state \<Rightarrow> int \<Rightarrow> User \<Rightarrow> CRStatus result" where
  "submit_for_review s cid user =
     (if \<not> require_role {admin, approver, editor} user
      then raise_http s s 403 ''Insufficient permissions''
      else case find_cr s cid of
        None \<Rightarrow> raise_http s s 404 ''Change request not found''
      | Some cr \<Rightarrow>
          if cr_author_id cr \<noteq> uid user \<and> role user \<noteq> admin
          then raise_http s s 403 ''Only the author can submit for review''
          else if cr_status cr \<notin> {draft, rejected}
          then raise_http s s 400 ''Can only submit draft or rejected CRs''
          else if cr_files s cid = []
          then raise_http s s 400 ''Cannot submit a CR with no files''
          else
            let s1 = update_cr cid
                       (\<lambda>c. c\<lparr>cr_status := pending_review, cr_review_comment := None,
                               cr_reviewer_id := None, cr_reviewed_at := None\<rparr>) s;
                s2 = add_audit (uid user) ''cr.submit'' ''change_request'' (str_int cid) [] s1
            in Inr (pending_review, s2))"

definition review_change_request ::
  "state \<Rightarrow> int \<Rightarrow> ReviewRequest \<Rightarrow> User \<Rightarrow> CRStatus result" where
  "review_change_request s cid req user =
     (if \<not> require_role {admin, approver} user
      then raise_http s s 403 ''Insufficient permissions''
      else case find_cr s cid of
        None \<Rightarrow> raise_http s s 404 ''Change request not found''
      | Some cr \<Rightarrow>
          if cr_status cr \<noteq> pending_review
          then raise_http s s 400 ''CR is not pending review''
          else if cr_author_id cr = uid user \<and> role user \<noteq> admin
          then raise_http s s 400 ''Cannot review your own change request''
          else if rr_action req \<noteq> ''approve'' \<and> rr_action req \<noteq> ''reject''
          then raise_http s s 400 (''Action must be 'approve' or 'reject'' @ [CHR 0x27])
          else
            let new_status = (if rr_action req = ''approve'' then approved else rejected);
                s1 = update_cr cid
                       (\<lambda>c. c\<lparr>cr_status := new_status, cr_reviewer_id := Some (uid user),
                               cr_review_comment := Some (rr_comment req),
                               cr_reviewed_at := Some (clock s)\<rparr>) s;
                s2 = add_audit (uid user) (''cr.'' @ rr_action req) ''change_request''
                       (str_int cid) [] s1
            in Inr (new_status, s2))"

definition db_add_fv ::
  "string \<Rightarrow> int \<Rightarrow> string \<Rightarrow> int \<Rightarrow> string \<Rightarrow> int \<Rightarrow> string \<Rightarrow> bool \<Rightarrow> state \<Rightarrow> state" where
  \<comment> \<open>\<^verbatim>\<open>db.add(FileVersion(...))\<close>\<close>
  "db_add_fv file_path version s3_key sz content_hash author message is_delete s =
     s\<lparr>file_versions := file_versions s @
          [\<lparr>fv_id = next_fv_id s, fv_file_path = file_path, fv_version = version,
            fv_s3_key = s3_key, fv_size = sz, fv_content_hash = content_hash,
            fv_author_id = author, fv_message = message, fv_is_delete = is_delete,
            fv_created_at = clock s\<rparr>],
       next_fv_id := next_fv_id s + 1\<rparr>"

definition next_ver :: "state \<Rightarrow> string \<Rightarrow> int" where
  \<comment> \<open>\<^verbatim>\<open>next_ver = (ver_result.scalar() or 0) + 1\<close> of the merge loop\<close>
  "next_ver s file_path =
     (case max_version s file_path of None \<Rightarrow> 0 | Some m \<Rightarrow> if m = 0 then 0 else m) + 1"

definition merge_file :: "lib \<Rightarrow> ChangeRequest \<Rightarrow> ChangeRequestFile \<Rightarrow> state \<Rightarrow> state option" where
  \<comment> \<open>the body of the loop \<^verbatim>\<open>for crf in cr.files\<close>; \<open>None\<close> when \<^verbatim>\<open>get_object\<close> raises\<close>
  "merge_file L cr crf s =
     (if crf_action crf \<in> {create, edit} then
        (case crf_staging_s3_key crf of
           None \<Rightarrow> Some s
         | Some staging_s3_key \<Rightarrow>
             if staging_s3_key = [] then Some s
             else
               (case get_object s staging_s3_key of
                 None \<Rightarrow> None
               | Some content \<Rightarrow>
                   let content_type = guess_content_type (crf_file_path crf);
                       content_hash = compute_hash L content;
                       n = next_ver s (crf_file_path crf);
                       (version_key, s1) = generate_version_key L s;
                       s2 = put_object version_key content content_type s1;
                       s3 = put_object (crf_file_path crf) content content_type s2;
                       s4 = db_add_fv (crf_file_path crf) n version_key
                              (int (length content)) content_hash (cr_author_id cr)
                              (''CR #'' @ str_int (cr_id cr) @ '': '' @ cr_title cr) False s3
                   in Some (delete_object staging_s3_key s4)))
      else
        let n = next_ver s (crf_file_path crf);
            s1 = db_add_fv (crf_file_path crf) n [] 0 ''deleted'' (cr_author_id cr)
                   (''CR #'' @ str_int (cr_id cr) @ '': Delete '' @ crf_file_path crf) True s
        in Some (delete_object (crf_file_path crf) s1))"

fun merge_files :: "lib \<Rightarrow> ChangeRequest \<Rightarrow> ChangeRequestFile list \<Rightarrow> state \<Rightarrow> state + state" where
  "merge_files L cr [] s = Inr s"
| "merge_files L cr (crf # crfs) s =
     (case merge_file L cr crf s of
        None \<Rightarrow> Inl s
      | Some s' \<Rightarrow> merge_files L cr crfs s')"

definition merge_change_request :: "lib \<Rightarrow> state \<Rightarrow> int \<Rightarrow> User \<Rightarrow> CRStatus result" where
  "merge_change_request L s cid user =
     (if \<not> require_role {admin, approver, editor} user
      then raise_http s s 403 ''Insufficient permissions''
      else case find_cr s cid of
        None \<Rightarrow> raise_http s s 404 ''Change request not found''
      | Some cr \<Rightarrow>
          if cr_status cr \<noteq> approved
          then raise_http s s 400 ''CR must be approved before merging''
          else
            (case merge_files L cr (cr_files s cid) s of
              Inl s' \<Rightarrow> raise_partial s' 500 ''Internal Server Error''
            | Inr s1 \<Rightarrow>
                let s2 = update_cr cid
                           (\<lambda>c. c\<lparr>cr_status := merged, cr_merged_at := Some (clock s)\<rparr>) s1;
                    s3 = add_audit (uid user) ''cr.merge'' ''change_request'' (str_int cid)
                           [(''file_count'', int (length (cr_files s cid)))] s2
                in Inr (merged, s3)))"

definition close_change_request :: "state \<Rightarrow> int \<Rightarrow> User \<Rightarrow> CRStatus result" where
  "close_change_request s cid user =
     (if \<not> require_role {admin, approver, editor} user
      then raise_http s s 403 ''Insufficient permissions''
      else case find_cr s cid of
        None \<Rightarrow> raise_http s s 404 ''Change request not found''
      | Some cr \<Rightarrow>
          if cr_status cr \<in> {merged, closed}
          then raise_http s s 400 ''CR is already finalized''
          else if cr_author_id cr \<noteq> uid user \<and> role user \<noteq> admin
          then raise_http s s 403 ''Only the author or admin can close this CR''
          else
            let s1 = update_cr cid (\<lambda>c. c\<lparr>cr_status := closed\<rparr>) s;
                s2 = fold discard_staged (cr_files s cid) s1;
                s3 = add_audit (uid user) ''cr.close'' ''change_request'' (str_int cid) [] s2
            in Inr (closed, s3))"

section \<open>Files (app/routers/files.py)\<close>

record Settings =
  max_file_size_mb :: int

record SaveFileRequest =
  sfr_path :: string
  sfr_content :: string
  sfr_message :: string

record FileDetail =
  fd_path :: string
  fd_content :: "string option"
  fd_size :: int
  fd_version :: int
  fd_content_hash :: string
  fd_author :: "string option"
  fd_author_id :: "int option"
  fd_message :: string
  fd_is_binary :: bool
  fd_created_at :: "timestamp option"

definition FileAction_value :: "FileAction \<Rightarrow> string" where
  "FileAction_value a = (case a of create \<Rightarrow> ''create'' | edit \<Rightarrow> ''edit'' | delete \<Rightarrow> ''delete'')"

definition find_fv :: "state \<Rightarrow> string \<Rightarrow> int \<Rightarrow> FileVersion option" where
  \<comment> \<open>the row of a path and version; the pair is a unique index\<close>
  "find_fv s file_path version =
     find (\<lambda>v. fv_file_path v = file_path \<and> fv_version v = version) (file_versions s)"

definition fv_author :: "state \<Rightarrow> FileVersion \<Rightarrow> User option" where
  \<comment> \<open>the relationship \<^verbatim>\<open>FileVersion.author\<close>\<close>
  "fv_author s v = find (\<lambda>u. uid u = fv_author_id v) (users s)"

fun most_recent :: "ChangeRequest list \<Rightarrow> ChangeRequest option" where
  \<comment> \<open>\<^verbatim>\<open>order_by(desc(ChangeRequest.updated_at)).limit(1)\<close>\<close>
  "most_recent [] = None"
| "most_recent (c # cs) =
     (case most_recent cs of
        None \<Rightarrow> Some c
      | Some d \<Rightarrow> if cr_updated_at c < cr_updated_at d then Some d else Some c)"

definition get_or_create_draft_cr :: "state \<Rightarrow> User \<Rightarrow> ChangeRequest \<times> state" where
  "get_or_create_draft_cr s user =
     (case most_recent (filter (\<lambda>c. cr_author_id c = uid user \<and> cr_status c = draft)
                               (change_requests s)) of
        Some cr \<Rightarrow> (cr, s)
      | None \<Rightarrow>
          let cr = \<lparr>cr_id = next_cr_id s, cr_title = ''Changes by '' @ username user,
                    cr_description = ''Auto-created draft. Edit the title before submitting.'',
                    cr_status = draft, cr_author_id = uid user, cr_reviewer_id = None,
                    cr_review_comment = None, cr_reviewed_at = None, cr_merged_at = None,
                    cr_created_at = clock s, cr_updated_at = clock s\<rparr>;
              s1 = s\<lparr>change_requests := change_requests s @ [cr],
                     next_cr_id := next_cr_id s + 1\<rparr>;
              s2 = add_audit (uid user) ''cr.auto_create'' ''change_request''
                     (str_int (cr_id cr)) [] s1
          in (cr, s2))"

definition stage_file_in_cr ::
  "lib \<Rightarrow> state \<Rightarrow> ChangeRequest \<Rightarrow> string \<Rightarrow> FileAction \<Rightarrow> bytes option \<Rightarrow>
     state + ChangeRequestFile \<times> state" where
  \<comment> \<open>left: the state in which \<^verbatim>\<open>db.flush()\<close> raises\<close>
  "stage_file_in_cr L s cr file_path action content_bytes =
     (let existing = filter (\<lambda>f. crf_change_request_id f = cr_id cr \<and> crf_file_path f = file_path)
                            (change_request_files s);
          s1 = remove_entries existing s;
          (staging_key, s2) =
            (if action \<in> {create, edit} \<and> content_bytes \<noteq> None
             then let (k, s') = stage_content L file_path (the content_bytes) s1 in (Some k, s')
             else (None, s1));
          latest = (if action \<in> {edit, delete} then get_latest_version s2 file_path else None);
          base_version_id = (if action \<in> {edit, delete} \<and> is_live latest
                             then map_option fv_id latest else None)
      in if action \<notin> {edit, delete} \<and> existing \<noteq> [] then Inl s2
         else Inr (db_add_crf (cr_id cr) file_path action staging_key base_version_id s2))"

definition retitle :: "string \<Rightarrow> ChangeRequest \<Rightarrow> state \<Rightarrow> ChangeRequest \<times> state" where
  \<comment> \<open>\<^verbatim>\<open>if message and cr.title.startswith("Changes by "): cr.title = message\<close>\<close>
  "retitle message cr s =
     (if message \<noteq> [] \<and> startswith (cr_title cr) ''Changes by ''
      then (cr\<lparr>cr_title := message\<rparr>, update_cr (cr_id cr) (\<lambda>c. c\<lparr>cr_title := message\<rparr>) s)
      else (cr, s))"

definition get_file_content ::
  "lib \<Rightarrow> state \<Rightarrow> string \<Rightarrow> int option \<Rightarrow> FileDetail result" where
  "get_file_content L s path version =
     (let found =
            (if version \<noteq> None \<and> version \<noteq> Some 0 then
               (case find_fv s path (the version) of
                  None \<Rightarrow> Inl (HTTPException 404
                                 (''Version '' @ str_int (the version) @ '' not found for '' @ path))
                | Some fv \<Rightarrow>
                    if fv_is_delete fv
                    then Inl (HTTPException 410 ''This version is a deletion record'')
                    else (case get_object s (fv_s3_key fv) of
                            None \<Rightarrow> Inl (HTTPException 404 ''Version content not found in storage'')
                          | Some content_bytes \<Rightarrow> Inr (Some fv, content_bytes)))
             else
               (case get_latest_version s path of
                  Some fv \<Rightarrow>
                    if fv_is_delete fv then Inl (HTTPException 410 ''File has been deleted'')
                    else (case get_object s path of
                            None \<Rightarrow> Inl (HTTPException 404 ''File not found'')
                          | Some content_bytes \<Rightarrow> Inr (Some fv, content_bytes))
                | None \<Rightarrow>
                    (case get_object s path of
                       None \<Rightarrow> Inl (HTTPException 404 ''File not found'')
                     | Some content_bytes \<Rightarrow> Inr (None, content_bytes))))
      in case found of
           Inl e \<Rightarrow> Inl (e, s)
         | Inr (fv, content_bytes) \<Rightarrow>
             let is_binary = \<not> is_text_file path;
                 content = (if is_binary then None else Some (utf8_decode L content_bytes))
             in Inr (\<lparr>fd_path = path, fd_content = content,
                       fd_size = int (length content_bytes),
                       fd_version = (case fv of Some v \<Rightarrow> fv_version v | None \<Rightarrow> 0),
                       fd_content_hash = (case fv of Some v \<Rightarrow> fv_content_hash v
                                          | None \<Rightarrow> compute_hash L content_bytes),
                       fd_author = (case fv of
                                      Some v \<Rightarrow> map_option username (fv_author s v)
                                    | None \<Rightarrow> None),
                       fd_author_id = map_option fv_author_id fv,
                       fd_message = (case fv of Some v \<Rightarrow> fv_message v | None \<Rightarrow> []),
                       fd_is_binary = is_binary,
                       fd_created_at = map_option fv_created_at fv\<rparr>, s))"

definition stage_and_log ::
  "lib \<Rightarrow> state \<Rightarrow> User \<Rightarrow> string \<Rightarrow> string \<Rightarrow> bytes \<Rightarrow> bool \<Rightarrow>
     (int \<times> string \<times> string \<times> FileAction \<times> nat) result" where
  \<comment> \<open>what \<^verbatim>\<open>save_file\<close> and \<^verbatim>\<open>upload_file\<close> do once the path and the body are accepted;
      only \<^verbatim>\<open>save_file\<close> writes the audit row\<close>
  "stage_and_log L s user path message content_bytes audit =
     (let is_new = \<not> is_live (get_latest_version s path);
          action = (if is_new then create else edit);
          (cr, s1) = get_or_create_draft_cr s user;
          (cr', s2) = retitle message cr s1
      in case stage_file_in_cr L s2 cr' path action (Some content_bytes) of
           Inl s' \<Rightarrow> raise_http s s' 500 ''Internal Server Error''
         | Inr (crf, s3) \<Rightarrow>
             let s4 = (if audit
                       then add_audit (uid user) (''file.stage_'' @ FileAction_value action)
                              ''file'' path [(''cr_id'', cr_id cr')] s3
                       else s3)
             in Inr ((cr_id cr', cr_title cr', path, action, length (cr_files s4 (cr_id cr'))),
                     s4))"

definition save_file ::
  "lib \<Rightarrow> state \<Rightarrow> SaveFileRequest \<Rightarrow> User \<Rightarrow> (int \<times> string \<times> string \<times> FileAction \<times> nat) result" where
  "save_file L s req user =
     (if \<not> require_role WRITE_ROLES user
      then raise_http s s 403 ''Insufficient permissions''
      else
        let path = strip_slash (sfr_path req) in
        if path = [] then raise_http s s 400 ''Path is required''
        else if startswith path ''_'' then raise_http s s 400 ''Paths starting with _ are reserved''
        else stage_and_log L s user path (sfr_message req)
               (utf8_encode L (sfr_content req)) True)"

definition upload_file ::
  "lib \<Rightarrow> Settings \<Rightarrow> state \<Rightarrow> string \<Rightarrow> string \<Rightarrow> bytes \<Rightarrow> User \<Rightarrow> (int \<times> string \<times> FileAction) result" where
  "upload_file L settings s path0 message content_bytes user =
     (if \<not> require_role WRITE_ROLES user
      then raise_http s s 403 ''Insufficient permissions''
      else
        let path = strip_slash path0 in
        if path = [] then raise_http s s 400 ''Path is required''
        else if startswith path ''_'' then raise_http s s 400 ''Paths starting with _ are reserved''
        else if int (length content_bytes) > max_file_size_mb settings * 1024 * 1024
        then raise_http s s 413 (''File exceeds '' @ str_int (max_file_size_mb settings) @ ''MB limit'')
        else
          (case stage_and_log L s user path message content_bytes False of
             Inl e \<Rightarrow> Inl e
           | Inr ((cid, title, p, action, n), s1) \<Rightarrow> Inr ((cid, p, action), s1)))"

definition delete_file ::
  "lib \<Rightarrow> state \<Rightarrow> string \<Rightarrow> User \<Rightarrow> (int \<times> string \<times> string \<times> nat) result" where
  "delete_file L s path0 user =
     (let path = strip_slash path0 in
      case get_latest_version s path of
        None \<Rightarrow> raise_http s s 404 ''File not found or already deleted''
      | Some latest \<Rightarrow>
          if fv_is_delete latest then raise_http s s 404 ''File not found or already deleted''
          else if role user \<notin> WRITE_ROLES \<and>
                  (fv_author s latest = None \<or> fv_author_id latest \<noteq> uid user)
          then raise_http s s 403 ''Insufficient permissions to delete this file''
          else
            let (cr, s1) = get_or_create_draft_cr s user
            in (case stage_file_in_cr L s1 cr path delete None of
                  Inl s' \<Rightarrow> raise_http s s' 500 ''Internal Server Error''
                | Inr (crf, s2) \<Rightarrow>
                    let s3 = add_audit (uid user) ''file.stage_delete'' ''file'' path
                               [(''cr_id'', cr_id cr)] s2
                    in Inr ((cr_id cr, path, ''delete'', length (cr_files s3 (cr_id cr))), s3)))"

definition create_folder :: "state \<Rightarrow> string \<Rightarrow> User \<Rightarrow> string result" where
  "create_folder s path0 user =
     (if \<not> require_role WRITE_ROLES user
      then raise_http s s 403 ''Insufficient permissions''
      else
        let path = strip_slash path0 in
        if path = [] then raise_http s s 400 ''Path is required''
        else if startswith path ''_'' then raise_http s s 400 ''Paths starting with _ are reserved''
        else Inr (path, put_object (path @ ''/'') [] ''application/x-directory'' s))"

definition restore_version ::
  "lib \<Rightarrow> state \<Rightarrow> string \<Rightarrow> int \<Rightarrow> User \<Rightarrow> (int \<times> string \<times> int) result" where
  "restore_version L s path version user =
     (if \<not> require_role WRITE_ROLES user
      then raise_http s s 403 ''Insufficient permissions''
      else case find_fv s path version of
        None \<Rightarrow> raise_http s s 404 ''Version not found''
      | Some target \<Rightarrow>
          if fv_is_delete target then raise_http s s 400 ''Cannot restore a deletion version''
          else
            (case get_object s (fv_s3_key target) of
               None \<Rightarrow> raise_http s s 500 ''Internal Server Error''
             | Some content \<Rightarrow>
                 let (cr, s1) = get_or_create_draft_cr s user
                 in (case stage_file_in_cr L s1 cr path edit (Some content) of
                       Inl s' \<Rightarrow> raise_http s s' 500 ''Internal Server Error''
                     | Inr (crf, s2) \<Rightarrow>
                         let s3 = add_audit (uid user) ''file.stage_restore'' ''file'' path
                                    [(''cr_id'', cr_id cr), (''from_version'', version)] s2
                         in Inr ((cr_id cr, path, version), s3))))"

section \<open>Public access (app/routers/pages.py)\<close>

datatype response =
  TemplateResponse "string option" string "string option" "int option"
  \<comment> \<open>\<^verbatim>\<open>public_file.html\<close> with its \<^verbatim>\<open>error\<close>, \<^verbatim>\<open>file_path\<close>, \<^verbatim>\<open>content\<close> and \<^verbatim>\<open>size\<close>\<close>
| Response bytes string string
  \<comment> \<open>the body, the media type and the \<^verbatim>\<open>Content-Disposition\<close> header\<close>

definition find_share_by_token :: "state \<Rightarrow> string \<Rightarrow> FileShare option" where
  "find_share_by_token s token = find (\<lambda>f. fs_token f = token) (file_shares s)"

definition find_share_by_path :: "state \<Rightarrow> string \<Rightarrow> FileShare option" where
  "find_share_by_path s path = find (\<lambda>f. fs_file_path f = path) (file_shares s)"

definition attachment :: "string \<Rightarrow> string" where
  "attachment file_path =
     ''attachment; filename=\"'' @ rsplit_last (CHR ''/'') file_path @ ''\"''"

definition public_file :: "lib \<Rightarrow> state \<Rightarrow> string \<Rightarrow> response result" where
  "public_file L s token =
     (case find_share_by_token s token of
        None \<Rightarrow> raise_http s s 404 ''File not found or not public''
      | Some share \<Rightarrow>
          if \<not> fs_is_public share then raise_http s s 404 ''File not found or not public''
          else if fs_is_archived share
          then Inr (TemplateResponse
                      (Some ''This file has been archived and is no longer available.'')
                      (fs_file_path share) None None, s)
          else if \<not> is_live (get_latest_version s (fs_file_path share))
          then raise_http s s 404 ''File not found or deleted''
          else
            (case get_object s (fs_file_path share) of
               None \<Rightarrow> raise_http s s 404 ''File content not found''
             | Some content_bytes \<Rightarrow>
                 if is_text_file (fs_file_path share)
                 then Inr (TemplateResponse None (fs_file_path share)
                             (Some (utf8_decode L content_bytes))
                             (Some (int (length content_bytes))), s)
                 else Inr (Response content_bytes (guess_content_type (fs_file_path share))
                             (attachment (fs_file_path share)), s)))"

definition public_file_raw :: "state \<Rightarrow> string \<Rightarrow> response result" where
  "public_file_raw s path =
     (case find_share_by_path s path of
        None \<Rightarrow> raise_http s s 404 ''File not found or not public''
      | Some share \<Rightarrow>
          if \<not> fs_is_public share then raise_http s s 404 ''File not found or not public''
          else if fs_is_archived share then raise_http s s 410 ''File has been archived''
          else if \<not> is_live (get_latest_version s (fs_file_path share))
          then raise_http s s 404 ''File not found or deleted''
          else
            (case get_object s (fs_file_path share) of
               None \<Rightarrow> raise_http s s 404 ''File content not found''
             | Some content_bytes \<Rightarrow>
                 Inr (Response content_bytes (guess_content_type (fs_file_path share))
                        (attachment (fs_file_path share)), s)))"

section \<open>Notions used to state the properties\<close>

definition state_of :: "'a result \<Rightarrow> state" where
  \<comment> \<open>the state a request leaves behind, whether it raised or returned\<close>
  "state_of r = (case r of Inl (e, s) \<Rightarrow> s | Inr (x, s) \<Rightarrow> s)"

definition rows_of :: "state \<Rightarrow> string \<Rightarrow> FileVersion list" where
  \<comment> \<open>the version history of a path, in the order the rows were appended\<close>
  "rows_of s p = filter (\<lambda>v. fv_file_path v = p) (file_versions s)"

definition versions_of :: "state \<Rightarrow> string \<Rightarrow> int list" where
  "versions_of s p = map fv_version (rows_of s p)"

definition staged_key :: "ChangeRequestFile \<Rightarrow> string option" where
  \<comment> \<open>the key of the staged blob of an operation, when it has one\<close>
  "staged_key f =
     (case crf_staging_s3_key f of None \<Rightarrow> None | Some k \<Rightarrow> if k = [] then None else Some k)"

definition mergeable :: "state \<Rightarrow> ChangeRequestFile list \<Rightarrow> bool" where
  \<comment> \<open>well-formed staged operations of one change request: one operation per path (the
      unique index \<^verbatim>\<open>ix_cr_files_cr_path\<close>), paths outside the reserved key space,
      staged blobs under distinct keys of the staging prefix and present in the store,
      deletes without a staged blob\<close>
  "mergeable s fs \<longleftrightarrow>
     distinct (map crf_file_path fs)
     \<and> distinct (List.map_filter staged_key fs)
     \<and> (\<forall>f \<in> set fs.
           \<not> startswith (crf_file_path f) ''_''
           \<and> (case staged_key f of
                 None \<Rightarrow> True
               | Some k \<Rightarrow> crf_action f \<noteq> delete \<and> startswith k ''_staging/''
                            \<and> s3_objects s k \<noteq> None))"

definition committed_as ::
  "lib \<Rightarrow> ChangeRequest \<Rightarrow> string \<Rightarrow> int \<Rightarrow> bytes \<Rightarrow> FileVersion \<Rightarrow> bool" where
  \<comment> \<open>\<open>v\<close> is the row that the merge of \<open>cr\<close> writes for content committed at \<open>p\<close> as version \<open>n\<close>\<close>
  "committed_as L cr p n content v \<longleftrightarrow>
     fv_file_path v = p \<and> fv_version v = n \<and> startswith (fv_s3_key v) ''_versions/''
     \<and> fv_size v = int (length content) \<and> fv_content_hash v = sha256_hexdigest L content
     \<and> fv_author_id v = cr_author_id cr
     \<and> fv_message v = ''CR #'' @ str_int (cr_id cr) @ '': '' @ cr_title cr
     \<and> \<not> fv_is_delete v"

definition tombstone_as :: "ChangeRequest \<Rightarrow> string \<Rightarrow> int \<Rightarrow> FileVersion \<Rightarrow> bool" where
  \<comment> \<open>\<open>v\<close> is the row that the merge of \<open>cr\<close> writes for the deletion of \<open>p\<close> as version \<open>n\<close>\<close>
  "tombstone_as cr p n v \<longleftrightarrow>
     fv_file_path v = p \<and> fv_version v = n \<and> fv_s3_key v = [] \<and> fv_size v = 0
     \<and> fv_content_hash v = ''deleted'' \<and> fv_author_id v = cr_author_id cr
     \<and> fv_message v = ''CR #'' @ str_int (cr_id cr) @ '': Delete '' @ p
     \<and> fv_is_delete v"

definition rebase :: "(ChangeRequestFile \<Rightarrow> int option) \<Rightarrow> state \<Rightarrow> state" where
  \<comment> \<open>the state with the base version reference of every staged operation replaced\<close>
  "rebase g s =
     s\<lparr>change_request_files :=
         map (\<lambda>f. f\<lparr>crf_base_version_id := g f\<rparr>) (change_request_files s)\<rparr>"

definition merge_outcome ::
  "lib \<Rightarrow> ChangeRequest \<Rightarrow> state \<Rightarrow> state \<Rightarrow> ChangeRequestFile \<Rightarrow> bool" where
  \<comment> \<open>what the merge of \<open>cr\<close>, run from \<open>s\<close> to \<open>s'\<close>, has done for the staged operation \<open>f\<close>\<close>
  "merge_outcome L cr s s' f \<longleftrightarrow>
     (let p = crf_file_path f in
      if crf_action f = delete
      then \<exists>v. rows_of s' p = rows_of s p @ [v] \<and> tombstone_as cr p (next_ver s p) v
               \<and> s3_objects s' p = None
      else case staged_key f of
             None \<Rightarrow> rows_of s' p = rows_of s p \<and> s3_objects s' p = s3_objects s p
           | Some k \<Rightarrow>
               \<exists>v content ct. s3_objects s k = Some (content, ct)
                 \<and> rows_of s' p = rows_of s p @ [v]
                 \<and> committed_as L cr p (next_ver s p) content v
                 \<and> s3_objects s' p = Some (content, guess_content_type p)
                 \<and> s3_objects s' k = None)"

definition create_and_merge ::
  "lib \<Rightarrow> state \<Rightarrow> int \<Rightarrow> string \<Rightarrow> string \<Rightarrow> User \<Rightarrow> User \<Rightarrow> User \<Rightarrow> state option" where
  \<comment> \<open>the scenario of the round trip: the author stages a create of the path with the
      content in the change request and submits it, the reviewer approves it, the merger
      merges it; \<open>None\<close> when one of the four requests raises\<close>
  "create_and_merge L s cid path content author reviewer merger =
     (case add_file_to_cr L s cid
             \<lparr>afr_file_path = path, afr_action = ''create'', afr_content = Some content\<rparr> author of
        Inl e \<Rightarrow> None
      | Inr (r1, s1) \<Rightarrow>
          (case submit_for_review s1 cid author of
             Inl e \<Rightarrow> None
           | Inr (r2, s2) \<Rightarrow>
               (case review_change_request s2 cid
                       \<lparr>rr_action = ''approve'', rr_comment = []\<rparr> reviewer of
                  Inl e \<Rightarrow> None
                | Inr (r3, s3) \<Rightarrow>
                    (case merge_change_request L s3 cid merger of
                       Inl e \<Rightarrow> None
                     | Inr (r4, s4) \<Rightarrow> Some s4))))"

section \<open>Example data\<close>

text \<open>
  Concrete users, library functions and states on which the theorems below are
  instantiated and the routes are evaluated.
\<close>

definition alice :: User where
  "alice = \<lparr>uid = 1, username = ''alice'', role = editor\<rparr>"

definition bob :: User where
  "bob = \<lparr>uid = 2, username = ''bob'', role = approver\<rparr>"

definition root :: User where
  "root = \<lparr>uid = 3, username = ''root'', role = admin\<rparr>"

definition vic :: User where
  "vic = \<lparr>uid = 4, username = ''vic'', role = viewer\<rparr>"

definition lib0 :: lib where
  "lib0 = \<lparr>sha256_hexdigest = (\<lambda>b. ''sha256:'' @ b), utf8_encode = (\<lambda>t. t),
           utf8_decode = (\<lambda>b. b), uuid4_hex = (\<lambda>n. CHR ''u'' # replicate n (CHR ''0''))\<rparr>"

definition demo_cr :: "int \<Rightarrow> CRStatus \<Rightarrow> int \<Rightarrow> ChangeRequest" where
  "demo_cr i st author =
     \<lparr>cr_id = i, cr_title = ''Demo'', cr_description = [], cr_status = st,
      cr_author_id = author, cr_reviewer_id = None, cr_review_comment = None,
      cr_reviewed_at = None, cr_merged_at = None, cr_created_at = 0, cr_updated_at = 0\<rparr>"

definition demo_state :: state where
  "demo_state =
     \<lparr>users = [alice, bob, root, vic], file_versions = [], change_requests = [],
      change_request_files = [], file_shares = [], audit_logs = [],
      next_fv_id = 1, next_cr_id = 1, next_crf_id = 1, s3_objects = Map.empty,
      clock = 0, uuid_count = 0\<rparr>"

definition guards_state :: state where
  \<comment> \<open>three change requests without staged operations: a draft of alice, and one
      pending review each of bob (approver) and of root (admin)\<close>
  "guards_state =
     demo_state\<lparr>change_requests :=
       [demo_cr 1 draft 1, demo_cr 2 pending_review 2, demo_cr 3 pending_review 3],
       next_cr_id := 4\<rparr>"

definition demo_crf ::
  "int \<Rightarrow> int \<Rightarrow> string \<Rightarrow> FileAction \<Rightarrow> string option \<Rightarrow> ChangeRequestFile" where
  "demo_crf i cid path action key =
     \<lparr>crf_id = i, crf_change_request_id = cid, crf_file_path = path, crf_action = action,
      crf_staging_s3_key = key, crf_base_version_id = None, crf_created_at = 0\<rparr>"

definition draft_state :: state where
  \<comment> \<open>alice's draft, nothing staged\<close>
  "draft_state = demo_state\<lparr>change_requests := [demo_cr 1 draft 1], next_cr_id := 2\<rparr>"

definition merged_state :: state where
  \<comment> \<open>a merged change request of alice that still has a staged operation and its blob\<close>
  "merged_state =
     demo_state\<lparr>change_requests := [demo_cr 1 merged 1], next_cr_id := 2,
       change_request_files := [demo_crf 1 1 ''a.txt'' create (Some ''_staging/k1'')],
       next_crf_id := 2,
       s3_objects := [''_staging/k1'' \<mapsto> (''hello'', ''text/plain'')]\<rparr>"

definition demo_fv :: "int \<Rightarrow> string \<Rightarrow> int \<Rightarrow> int \<Rightarrow> bool \<Rightarrow> FileVersion" where
  "demo_fv i path version author is_delete =
     \<lparr>fv_id = i, fv_file_path = path, fv_version = version,
      fv_s3_key = (if is_delete then [] else ''_versions/v'' @ path),
      fv_size = (if is_delete then 0 else 2),
      fv_content_hash = (if is_delete then ''deleted'' else ''sha256:hi''),
      fv_author_id = author, fv_message = ''Demo'', fv_is_delete = is_delete,
      fv_created_at = 0\<rparr>"

definition share_state :: state where
  \<comment> \<open>three public shares: of a path whose latest version is a tombstone, of an archived
      path, and of a live path\<close>
  "share_state =
     demo_state\<lparr>file_shares :=
       [\<lparr>fs_id = 1, fs_file_path = ''a.txt'', fs_token = ''tok-a'', fs_is_public = True,
         fs_is_archived = False, fs_created_by_id = 1\<rparr>,
        \<lparr>fs_id = 2, fs_file_path = ''b.txt'', fs_token = ''tok-b'', fs_is_public = True,
         fs_is_archived = True, fs_created_by_id = 1\<rparr>,
        \<lparr>fs_id = 3, fs_file_path = ''c.txt'', fs_token = ''tok-c'', fs_is_public = True,
         fs_is_archived = False, fs_created_by_id = 1\<rparr>],
       file_versions :=
         [demo_fv 1 ''a.txt'' 1 1 False, demo_fv 2 ''a.txt'' 2 1 True,
          demo_fv 3 ''b.txt'' 1 1 False, demo_fv 4 ''c.txt'' 1 1 False],
       next_fv_id := 5,
       s3_objects := [''b.txt'' \<mapsto> (''hi'', ''text/plain''), ''c.txt'' \<mapsto> (''hi'', ''text/plain'')]\<rparr>"

definition viewer_state :: state where
  \<comment> \<open>a live file whose latest version was authored by vic, now a viewer; no change request\<close>
  "viewer_state =
     demo_state\<lparr>file_versions := [demo_fv 1 ''notes.txt'' 1 4 False], next_fv_id := 2,
       s3_objects := [''notes.txt'' \<mapsto> (''hi'', ''text/plain'')]\<rparr>"

definition approved_state :: state where
  \<comment> \<open>an approved change request of alice with an edit of \<^verbatim>\<open>a.txt\<close> staged against
      version 1, which is no longer the latest version, and a delete of \<^verbatim>\<open>old.txt\<close>\<close>
  "approved_state =
     demo_state\<lparr>file_versions :=
         [demo_fv 1 ''a.txt'' 1 1 False, demo_fv 2 ''a.txt'' 2 2 False,
          demo_fv 3 ''old.txt'' 1 1 False],
       next_fv_id := 4,
       change_requests := [demo_cr 1 approved 1], next_cr_id := 2,
       change_request_files :=
         [(demo_crf 1 1 ''a.txt'' edit (Some ''_staging/k1''))\<lparr>crf_base_version_id := Some 1\<rparr>,
          (demo_crf 2 1 ''old.txt'' delete None)\<lparr>crf_base_version_id := Some 3\<rparr>],
       next_crf_id := 3,
       s3_objects := [''a.txt'' \<mapsto> (''hi'', ''text/plain''),
                      ''old.txt'' \<mapsto> (''hi'', ''text/plain''),
                      ''_staging/k1'' \<mapsto> (''new text'', ''text/plain'')],
       clock := 7\<rparr>"


section \<open>Basic facts\<close>

lemma rollback_same: "rollback s s = s"
  by (simp add: rollback_def)

lemma raise_same: "raise_http s s c d = Inl (HTTPException c d, s)"
  by (simp add: raise_http_def rollback_same)

subsection \<open>What the primitive steps leave untouched\<close>

lemma put_object_fields [simp]:
  "file_versions (put_object k b t s) = file_versions s"
  "change_requests (put_object k b t s) = change_requests s"
  "change_request_files (put_object k b t s) = change_request_files s"
  "users (put_object k b t s) = users s"
  "next_fv_id (put_object k b t s) = next_fv_id s"
  "next_crf_id (put_object k b t s) = next_crf_id s"
  "next_cr_id (put_object k b t s) = next_cr_id s"
  "clock (put_object k b t s) = clock s"
  "uuid_count (put_object k b t s) = uuid_count s"
  "s3_objects (put_object k b t s) = (s3_objects s)(k \<mapsto> (b, t))"
  by (simp_all add: put_object_def)

lemma delete_object_fields [simp]:
  "file_versions (delete_object k s) = file_versions s"
  "change_requests (delete_object k s) = change_requests s"
  "change_request_files (delete_object k s) = change_request_files s"
  "users (delete_object k s) = users s"
  "next_fv_id (delete_object k s) = next_fv_id s"
  "next_crf_id (delete_object k s) = next_crf_id s"
  "next_cr_id (delete_object k s) = next_cr_id s"
  "clock (delete_object k s) = clock s"
  "uuid_count (delete_object k s) = uuid_count s"
  "s3_objects (delete_object k s) = (s3_objects s)(k := None)"
  by (simp_all add: delete_object_def)

lemma discard_staged_fields [simp]:
  "file_versions (discard_staged e s) = file_versions s"
  "change_requests (discard_staged e s) = change_requests s"
  "change_request_files (discard_staged e s) = change_request_files s"
  "users (discard_staged e s) = users s"
  "next_fv_id (discard_staged e s) = next_fv_id s"
  "next_crf_id (discard_staged e s) = next_crf_id s"
  "next_cr_id (discard_staged e s) = next_cr_id s"
  "clock (discard_staged e s) = clock s"
  "uuid_count (discard_staged e s) = uuid_count s"
  by (simp_all add: discard_staged_def split: option.split)

lemma db_delete_crf_fields [simp]:
  "file_versions (db_delete_crf e s) = file_versions s"
  "change_requests (db_delete_crf e s) = change_requests s"
  "users (db_delete_crf e s) = users s"
  "next_fv_id (db_delete_crf e s) = next_fv_id s"
  "next_crf_id (db_delete_crf e s) = next_crf_id s"
  "next_cr_id (db_delete_crf e s) = next_cr_id s"
  "clock (db_delete_crf e s) = clock s"
  "uuid_count (db_delete_crf e s) = uuid_count s"
  "s3_objects (db_delete_crf e s) = s3_objects s"
  "change_request_files (db_delete_crf e s) =
     filter (\<lambda>f. crf_id f \<noteq> crf_id e) (change_request_files s)"
  by (simp_all add: db_delete_crf_def)

lemma remove_entries_Nil [simp]: "remove_entries [] s = s"
  by (simp add: remove_entries_def)

lemma remove_entries_Cons [simp]:
  "remove_entries (e # es) s = remove_entries es (db_delete_crf e (discard_staged e s))"
  by (simp add: remove_entries_def)

lemma remove_entries_fields [simp]:
  "file_versions (remove_entries es s) = file_versions s"
  "change_requests (remove_entries es s) = change_requests s"
  "users (remove_entries es s) = users s"
  "next_fv_id (remove_entries es s) = next_fv_id s"
  "next_crf_id (remove_entries es s) = next_crf_id s"
  "next_cr_id (remove_entries es s) = next_cr_id s"
  "clock (remove_entries es s) = clock s"
  "uuid_count (remove_entries es s) = uuid_count s"
  by (induction es arbitrary: s; simp)+

lemma remove_entries_files:
  "change_request_files (remove_entries es s) =
     filter (\<lambda>f. crf_id f \<notin> crf_id ` set es) (change_request_files s)"
  by (induction es arbitrary: s) (auto intro: filter_cong)

lemma stage_content_fields [simp]:
  "fst (stage_content L p b s) = ''_staging/'' @ uuid4_hex L (uuid_count s)"
  "file_versions (snd (stage_content L p b s)) = file_versions s"
  "change_requests (snd (stage_content L p b s)) = change_requests s"
  "change_request_files (snd (stage_content L p b s)) = change_request_files s"
  "users (snd (stage_content L p b s)) = users s"
  "next_fv_id (snd (stage_content L p b s)) = next_fv_id s"
  "next_crf_id (snd (stage_content L p b s)) = next_crf_id s"
  "next_cr_id (snd (stage_content L p b s)) = next_cr_id s"
  "clock (snd (stage_content L p b s)) = clock s"
  "uuid_count (snd (stage_content L p b s)) = Suc (uuid_count s)"
  "s3_objects (snd (stage_content L p b s)) =
     (s3_objects s)(''_staging/'' @ uuid4_hex L (uuid_count s) \<mapsto> (b, guess_content_type p))"
  by (simp_all add: stage_content_def generate_staging_key_def)

lemma db_add_crf_fields [simp]:
  "fst (db_add_crf cid p a k b s) =
     \<lparr>crf_id = next_crf_id s, crf_change_request_id = cid, crf_file_path = p, crf_action = a,
      crf_staging_s3_key = k, crf_base_version_id = b, crf_created_at = clock s\<rparr>"
  "file_versions (snd (db_add_crf cid p a k b s)) = file_versions s"
  "change_requests (snd (db_add_crf cid p a k b s)) = change_requests s"
  "users (snd (db_add_crf cid p a k b s)) = users s"
  "next_fv_id (snd (db_add_crf cid p a k b s)) = next_fv_id s"
  "next_cr_id (snd (db_add_crf cid p a k b s)) = next_cr_id s"
  "clock (snd (db_add_crf cid p a k b s)) = clock s"
  "uuid_count (snd (db_add_crf cid p a k b s)) = uuid_count s"
  "s3_objects (snd (db_add_crf cid p a k b s)) = s3_objects s"
  "change_request_files (snd (db_add_crf cid p a k b s)) =
     change_request_files s @ [fst (db_add_crf cid p a k b s)]"
  by (simp_all add: db_add_crf_def Let_def)

lemma rollback_fields [simp]:
  "file_versions (rollback s0 s) = file_versions s0"
  "change_requests (rollback s0 s) = change_requests s0"
  "change_request_files (rollback s0 s) = change_request_files s0"
  "users (rollback s0 s) = users s0"
  "s3_objects (rollback s0 s) = s3_objects s"
  by (simp_all add: rollback_def)

lemma get_latest_version_cong:
  "file_versions s' = file_versions s \<Longrightarrow> get_latest_version s' p = get_latest_version s p"
  by (simp add: get_latest_version_def)

lemma max_version_cong:
  "file_versions s' = file_versions s \<Longrightarrow> max_version s' p = max_version s p"
  by (simp add: max_version_def)

section \<open>The guards of the state machine\<close>

text \<open>
  Claim C4. The routes signal a violated precondition of the state machine with
  \<^verbatim>\<open>HTTPException(400, reason)\<close>, and a failing request leaves the state as it was.
  For a change request that exists:
  merge of a change request that is not approved fails with 400 (with 403 when the actor
  has no write role, the dependency that runs first);
  review by the author fails with 400 when the author is an approver (either because the
  change request is not pending review or because it is the author's own), and with 403
  when the author may not review at all, whereas an admin reviewing their own pending
  change request succeeds;
  submit of a change request with no staged operation fails with 400 for the author or an
  admin (with 403 for any other actor).
\<close>

theorem state_machine_guards:
  assumes "find_cr s cid = Some cr"
  shows "(cr_status cr \<noteq> approved \<longrightarrow>
            merge_change_request L s cid user =
              Inl (if role user = viewer then HTTPException 403 ''Insufficient permissions''
                   else HTTPException 400 ''CR must be approved before merging'', s))
       \<and> (cr_author_id cr = uid user \<and> role user \<noteq> admin \<longrightarrow>
            review_change_request s cid req user =
              Inl (if role user \<noteq> approver then HTTPException 403 ''Insufficient permissions''
                   else if cr_status cr \<noteq> pending_review
                   then HTTPException 400 ''CR is not pending review''
                   else HTTPException 400 ''Cannot review your own change request'', s))
       \<and> (cr_author_id cr = uid user \<and> role user = admin \<and> cr_status cr = pending_review \<and>
            rr_action req \<in> {''approve'', ''reject''} \<longrightarrow>
            (\<exists>s'. review_change_request s cid req user =
                    Inr (if rr_action req = ''approve'' then approved else rejected, s')))
       \<and> (cr_files s cid = [] \<longrightarrow>
            submit_for_review s cid user =
              Inl (if role user = viewer then HTTPException 403 ''Insufficient permissions''
                   else if cr_author_id cr \<noteq> uid user \<and> role user \<noteq> admin
                   then HTTPException 403 ''Only the author can submit for review''
                   else if cr_status cr \<notin> {draft, rejected}
                   then HTTPException 400 ''Can only submit draft or rejected CRs''
                   else HTTPException 400 ''Cannot submit a CR with no files'', s))"
proof (intro conjI impI)
  assume "cr_status cr \<noteq> approved"
  with assms show "merge_change_request L s cid user =
      Inl (if role user = viewer then HTTPException 403 ''Insufficient permissions''
           else HTTPException 400 ''CR must be approved before merging'', s)"
    by (cases "role user") (simp_all add: merge_change_request_def require_role_def raise_same)
next
  assume "cr_author_id cr = uid user \<and> role user \<noteq> admin"
  with assms show "review_change_request s cid req user =
      Inl (if role user \<noteq> approver then HTTPException 403 ''Insufficient permissions''
           else if cr_status cr \<noteq> pending_review
           then HTTPException 400 ''CR is not pending review''
           else HTTPException 400 ''Cannot review your own change request'', s)"
    by (cases "role user") (simp_all add: review_change_request_def require_role_def raise_same)
next
  assume "cr_author_id cr = uid user \<and> role user = admin \<and> cr_status cr = pending_review \<and>
          rr_action req \<in> {''approve'', ''reject''}"
  with assms show "\<exists>s'. review_change_request s cid req user =
      Inr (if rr_action req = ''approve'' then approved else rejected, s')"
    by (auto simp add: review_change_request_def require_role_def Let_def)
next
  assume "cr_files s cid = []"
  with assms show "submit_for_review s cid user =
      Inl (if role user = viewer then HTTPException 403 ''Insufficient permissions''
           else if cr_author_id cr \<noteq> uid user \<and> role user \<noteq> admin
           then HTTPException 403 ''Only the author can submit for review''
           else if cr_status cr \<notin> {draft, rejected}
           then HTTPException 400 ''Can only submit draft or rejected CRs''
           else HTTPException 400 ''Cannot submit a CR with no files'', s)"
    by (cases "role user") (simp_all add: submit_for_review_def require_role_def raise_same)
qed

theorem state_machine_guards_witness:
  "find_cr guards_state 1 = Some (demo_cr 1 draft 1)
   \<and> cr_status (demo_cr 1 draft 1) \<noteq> approved
   \<and> merge_change_request lib0 guards_state 1 alice =
       Inl (HTTPException 400 ''CR must be approved before merging'', guards_state)
   \<and> cr_files guards_state 1 = []
   \<and> submit_for_review guards_state 1 alice =
       Inl (HTTPException 400 ''Cannot submit a CR with no files'', guards_state)
   \<and> find_cr guards_state 2 = Some (demo_cr 2 pending_review 2)
   \<and> cr_author_id (demo_cr 2 pending_review 2) = uid bob \<and> role bob \<noteq> admin
   \<and> review_change_request guards_state 2 \<lparr>rr_action = ''approve'', rr_comment = []\<rparr> bob =
       Inl (HTTPException 400 ''Cannot review your own change request'', guards_state)
   \<and> find_cr guards_state 3 = Some (demo_cr 3 pending_review 3)
   \<and> cr_author_id (demo_cr 3 pending_review 3) = uid root \<and> role root = admin
   \<and> (\<exists>s'. review_change_request guards_state 3 \<lparr>rr_action = ''approve'', rr_comment = []\<rparr> root =
             Inr (approved, s'))"
proof -
  have f1: "find_cr guards_state 1 = Some (demo_cr 1 draft 1)"
    and f2: "find_cr guards_state 2 = Some (demo_cr 2 pending_review 2)"
    and f3: "find_cr guards_state 3 = Some (demo_cr 3 pending_review 3)"
    by (simp_all add: find_cr_def guards_state_def demo_state_def demo_cr_def)
  have nofiles: "cr_files guards_state 1 = []"
    by (simp add: cr_files_def guards_state_def demo_state_def)
  show ?thesis
    using state_machine_guards [OF f1, of lib0 alice]
          state_machine_guards [OF f2, of lib0 bob "\<lparr>rr_action = ''approve'', rr_comment = []\<rparr>"]
          state_machine_guards [OF f3, of lib0 root "\<lparr>rr_action = ''approve'', rr_comment = []\<rparr>"]
          f1 f2 f3 nofiles
    by (simp add: demo_cr_def alice_def bob_def root_def)
qed

section \<open>Removing a staged operation; reserved paths\<close>

lemma add_file_needs_draft_or_rejected:
  "find_cr s cid = Some cr \<Longrightarrow> cr_status cr \<notin> {draft, rejected} \<Longrightarrow>
   \<exists>e. add_file_to_cr L s cid req user = Inl (e, s)"
  by (simp add: add_file_to_cr_def raise_same)

text \<open>
  Claim C1. \<^verbatim>\<open>remove_file_from_cr\<close> has no check of the status, unlike
  \<^verbatim>\<open>add_file_to_cr\<close> and \<^verbatim>\<open>update_change_request\<close>. On a merged change request
  whose staged operation is still there, the author's request to add an operation is
  refused with 400, and the author's request to remove the operation succeeds: the row
  is deleted and its staged blob is discarded.
\<close>

theorem remove_file_from_merged_cr:
  "map cr_status (change_requests merged_state) = [merged]
   \<and> add_file_to_cr lib0 merged_state 1
        \<lparr>afr_file_path = ''b.txt'', afr_action = ''create'', afr_content = Some ''x''\<rparr> alice =
       Inl (HTTPException 400 ''Can only modify files in draft or rejected CRs'', merged_state)
   \<and> remove_file_from_cr merged_state 1 1 alice =
       Inr (True, merged_state\<lparr>change_request_files := [], s3_objects := Map.empty\<rparr>)"
proof (intro conjI)
  show "map cr_status (change_requests merged_state) = [merged]"
    by (simp add: merged_state_def demo_cr_def)
  show "add_file_to_cr lib0 merged_state 1
        \<lparr>afr_file_path = ''b.txt'', afr_action = ''create'', afr_content = Some ''x''\<rparr> alice =
       Inl (HTTPException 400 ''Can only modify files in draft or rejected CRs'', merged_state)"
    by (simp add: add_file_to_cr_def merged_state_def demo_state_def demo_cr_def alice_def
        require_role_def find_cr_def raise_same)
  show "remove_file_from_cr merged_state 1 1 alice =
       Inr (True, merged_state\<lparr>change_request_files := [], s3_objects := Map.empty\<rparr>)"
    by (simp add: remove_file_from_cr_def merged_state_def demo_state_def demo_cr_def
        demo_crf_def alice_def require_role_def find_cr_def db_delete_crf_def
        discard_staged_def delete_object_def)
qed

lemma reserved_path_rejected:
  assumes "startswith (strip_slash path) ''_''"
  shows "\<exists>e. save_file L s \<lparr>sfr_path = path, sfr_content = c, sfr_message = m\<rparr> user = Inl (e, s)"
    and "\<exists>e. upload_file L settings s path m b user = Inl (e, s)"
    and "\<exists>e. create_folder s path user = Inl (e, s)"
  using assms
  by (simp_all add: save_file_def upload_file_def create_folder_def raise_same Let_def)

text \<open>
  Claim C2. \<^verbatim>\<open>save_file\<close>, \<^verbatim>\<open>upload_file\<close> and \<^verbatim>\<open>create_folder\<close> refuse a path
  that begins with an underscore; \<^verbatim>\<open>add_file_to_cr\<close> has no such check. On alice's
  draft, the request to stage a create of \<^verbatim>\<open>_versions/x\<close> through
  \<^verbatim>\<open>add_file_to_cr\<close> succeeds and stages the operation and its blob, while
  \<^verbatim>\<open>save_file\<close> refuses the same path with 400.
\<close>

theorem add_file_accepts_reserved_path:
  "add_file_to_cr lib0 draft_state 1
     \<lparr>afr_file_path = ''_versions/x'', afr_action = ''create'', afr_content = Some ''boo''\<rparr> alice =
     Inr ((1, ''_versions/x'', create),
          draft_state\<lparr>change_request_files :=
                        [demo_crf 1 1 ''_versions/x'' create (Some ''_staging/u'')],
                      next_crf_id := 2,
                      s3_objects := [''_staging/u'' \<mapsto> (''boo'', ''application/octet-stream'')],
                      uuid_count := 1\<rparr>)
   \<and> save_file lib0 draft_state
        \<lparr>sfr_path = ''_versions/x'', sfr_content = ''boo'', sfr_message = []\<rparr> alice =
       Inl (HTTPException 400 ''Paths starting with _ are reserved'', draft_state)"
proof (intro conjI)
  show "add_file_to_cr lib0 draft_state 1
     \<lparr>afr_file_path = ''_versions/x'', afr_action = ''create'', afr_content = Some ''boo''\<rparr> alice =
     Inr ((1, ''_versions/x'', create),
          draft_state\<lparr>change_request_files :=
                        [demo_crf 1 1 ''_versions/x'' create (Some ''_staging/u'')],
                      next_crf_id := 2,
                      s3_objects := [''_staging/u'' \<mapsto> (''boo'', ''application/octet-stream'')],
                      uuid_count := 1\<rparr>)"
    by (simp add: add_file_to_cr_def draft_state_def demo_state_def demo_cr_def demo_crf_def
        alice_def lib0_def require_role_def find_cr_def cr_files_def remove_entries_def
        strip_slash_def FileAction_of_def stage_content_def generate_staging_key_def
        put_object_def guess_content_type_def db_add_crf_def rsplit_last_def lower_def
        content_types_def is_live_def Let_def)
  show "save_file lib0 draft_state
        \<lparr>sfr_path = ''_versions/x'', sfr_content = ''boo'', sfr_message = []\<rparr> alice =
       Inl (HTTPException 400 ''Paths starting with _ are reserved'', draft_state)"
    by (simp add: save_file_def alice_def require_role_def WRITE_ROLES_def strip_slash_def
        startswith_def raise_same)
qed

section \<open>Staging an edit or a delete of a path that is not live\<close>

text \<open>
  Claim C10. Let a request to \<^verbatim>\<open>add_file_to_cr\<close> pass the guards that come first (the
  change request exists and is in draft or rejected, the actor has a write role and is
  the author or an admin, the stripped path \<open>p\<close> is not empty), and let \<open>p\<close> have no
  committed version or a tombstone as its latest version. Then an edit (with its
  content) fails with 404 and the message that tells the caller to use create, leaving
  the metadata as it was; a delete succeeds and records an operation for \<open>p\<close> with no
  staged blob and a null base version.
\<close>

theorem add_file_not_live:
  assumes "find_cr s cid = Some cr"
    and "role user \<in> {admin, approver, editor}"
    and "cr_author_id cr = uid user \<or> role user = admin"
    and "cr_status cr \<in> {draft, rejected}"
    and "strip_slash (afr_file_path req) = p" and "p \<noteq> []"
    and "\<not> is_live (get_latest_version s p)"
  shows "(afr_action req = ''edit'' \<and> afr_content req \<noteq> None \<longrightarrow>
            (\<exists>s'. add_file_to_cr L s cid req user =
                     Inl (HTTPException 404 ''File does not exist, use 'create' action'', s')
                 \<and> change_request_files s' = change_request_files s
                 \<and> change_requests s' = change_requests s
                 \<and> file_versions s' = file_versions s))
       \<and> (afr_action req = ''delete'' \<longrightarrow>
            (\<exists>s'. add_file_to_cr L s cid req user = Inr ((next_crf_id s, p, delete), s')
                 \<and> \<lparr>crf_id = next_crf_id s, crf_change_request_id = cid, crf_file_path = p,
                     crf_action = delete, crf_staging_s3_key = None,
                     crf_base_version_id = None, crf_created_at = clock s\<rparr>
                     \<in> set (change_request_files s')))"
proof (intro conjI impI)
  assume a: "afr_action req = ''edit'' \<and> afr_content req \<noteq> None"
  let ?s1 = "remove_entries (filter (\<lambda>f. crf_file_path f = p) (cr_files s cid)) s"
  let ?s2 = "snd (stage_content L p (utf8_encode L (the (afr_content req))) ?s1)"
  have "get_latest_version ?s2 p = get_latest_version s p"
    by (rule get_latest_version_cong) simp
  with assms a have "add_file_to_cr L s cid req user =
      Inl (HTTPException 404 ''File does not exist, use 'create' action'', rollback s ?s2)"
    by (auto simp add: add_file_to_cr_def require_role_def FileAction_of_def Let_def
        raise_http_def split_beta)
  then show "\<exists>s'. add_file_to_cr L s cid req user =
                     Inl (HTTPException 404 ''File does not exist, use 'create' action'', s')
                 \<and> change_request_files s' = change_request_files s
                 \<and> change_requests s' = change_requests s
                 \<and> file_versions s' = file_versions s"
    by simp
next
  assume a: "afr_action req = ''delete''"
  let ?s1 = "remove_entries (filter (\<lambda>f. crf_file_path f = p) (cr_files s cid)) s"
  have "get_latest_version ?s1 p = get_latest_version s p"
    by (rule get_latest_version_cong) simp
  with assms a have "add_file_to_cr L s cid req user =
      Inr ((next_crf_id s, p, delete), snd (db_add_crf cid p delete None None ?s1))"
    by (auto simp add: add_file_to_cr_def require_role_def FileAction_of_def Let_def
        split_beta)
  then show "\<exists>s'. add_file_to_cr L s cid req user = Inr ((next_crf_id s, p, delete), s')
                 \<and> \<lparr>crf_id = next_crf_id s, crf_change_request_id = cid, crf_file_path = p,
                     crf_action = delete, crf_staging_s3_key = None,
                     crf_base_version_id = None, crf_created_at = clock s\<rparr>
                     \<in> set (change_request_files s')"
    by simp
qed

theorem add_file_not_live_witness:
  "find_cr draft_state 1 = Some (demo_cr 1 draft 1)
   \<and> role alice \<in> {admin, approver, editor}
   \<and> cr_author_id (demo_cr 1 draft 1) = uid alice
   \<and> cr_status (demo_cr 1 draft 1) \<in> {draft, rejected}
   \<and> strip_slash ''/gone.txt'' = ''gone.txt''
   \<and> \<not> is_live (get_latest_version draft_state ''gone.txt'')
   \<and> (\<exists>s'. add_file_to_cr lib0 draft_state 1
               \<lparr>afr_file_path = ''/gone.txt'', afr_action = ''edit'', afr_content = Some ''x''\<rparr> alice =
             Inl (HTTPException 404 ''File does not exist, use 'create' action'', s'))
   \<and> (\<exists>s'. add_file_to_cr lib0 draft_state 1
               \<lparr>afr_file_path = ''/gone.txt'', afr_action = ''delete'', afr_content = None\<rparr> alice =
             Inr ((1, ''gone.txt'', delete), s')
           \<and> demo_crf 1 1 ''gone.txt'' delete None \<in> set (change_request_files s'))"
proof -
  have f: "find_cr draft_state 1 = Some (demo_cr 1 draft 1)"
    by (simp add: find_cr_def draft_state_def demo_state_def demo_cr_def)
  have r: "role alice \<in> {admin, approver, editor}"
    by (simp add: alice_def)
  have a: "cr_author_id (demo_cr 1 draft 1) = uid alice \<or> role alice = admin"
    by (simp add: alice_def demo_cr_def)
  have st: "cr_status (demo_cr 1 draft 1) \<in> {draft, rejected}"
    by (simp add: demo_cr_def)
  have nl: "\<not> is_live (get_latest_version draft_state ''gone.txt'')"
    by (simp add: is_live_def get_latest_version_def draft_state_def demo_state_def)
  have p1: "strip_slash (afr_file_path
              \<lparr>afr_file_path = ''/gone.txt'', afr_action = ''edit'', afr_content = Some ''x''\<rparr>) =
            ''gone.txt''"
    and p2: "strip_slash (afr_file_path
              \<lparr>afr_file_path = ''/gone.txt'', afr_action = ''delete'', afr_content = None\<rparr>) =
            ''gone.txt''"
    by (simp_all add: strip_slash_def)
  have ne: "''gone.txt'' \<noteq> []" by simp
  have c: "next_crf_id draft_state = 1" "clock draft_state = 0"
    by (simp_all add: draft_state_def demo_state_def)
  have au: "cr_author_id (demo_cr 1 draft 1) = uid alice"
    by (simp add: alice_def demo_cr_def)
  have ss: "strip_slash ''/gone.txt'' = ''gone.txt''"
    by (simp add: strip_slash_def)
  have e: "\<exists>s'. add_file_to_cr lib0 draft_state 1
               \<lparr>afr_file_path = ''/gone.txt'', afr_action = ''edit'', afr_content = Some ''x''\<rparr> alice =
             Inl (HTTPException 404 ''File does not exist, use 'create' action'', s')"
    using add_file_not_live [OF f r a st p1 ne nl, of lib0] by auto
  have d: "\<exists>s'. add_file_to_cr lib0 draft_state 1
               \<lparr>afr_file_path = ''/gone.txt'', afr_action = ''delete'', afr_content = None\<rparr> alice =
             Inr ((1, ''gone.txt'', delete), s')
           \<and> demo_crf 1 1 ''gone.txt'' delete None \<in> set (change_request_files s')"
    using add_file_not_live [OF f r a st p2 ne nl, of lib0] by (simp add: c demo_crf_def)
  from f r au st ss nl e d show ?thesis by blast
qed

section \<open>Public reads\<close>

lemma find_share_by_path_path:
  "find_share_by_path s path = Some share \<Longrightarrow> fs_file_path share = path"
  by (auto simp add: find_share_by_path_def find_Some_iff)

text \<open>
  Claim C3, as the routes have it. By path (\<^verbatim>\<open>public_file_raw\<close>): 404 when there is no
  sharing record or it is not public; 410 when it is archived; 404 when the path has no
  version or its latest version is a tombstone; 404 when the canonical blob is absent;
  otherwise the canonical blob of the path is served. By token (\<^verbatim>\<open>public_file\<close>): the
  same, except that an archived record is answered with the page carrying the message
  that the file has been archived, not with an error, and that a text file is served
  inside the page.
\<close>

theorem public_read:
  "(find_share_by_path s path = None \<longrightarrow>
      public_file_raw s path = Inl (HTTPException 404 ''File not found or not public'', s))
   \<and> (\<forall>share. find_share_by_path s path = Some share \<longrightarrow>
        public_file_raw s path =
          (if \<not> fs_is_public share
           then Inl (HTTPException 404 ''File not found or not public'', s)
           else if fs_is_archived share
           then Inl (HTTPException 410 ''File has been archived'', s)
           else if \<not> is_live (get_latest_version s path)
           then Inl (HTTPException 404 ''File not found or deleted'', s)
           else case get_object s path of
                  None \<Rightarrow> Inl (HTTPException 404 ''File content not found'', s)
                | Some body \<Rightarrow>
                    Inr (Response body (guess_content_type path) (attachment path), s)))
   \<and> (find_share_by_token s token = None \<longrightarrow>
        public_file L s token = Inl (HTTPException 404 ''File not found or not public'', s))
   \<and> (\<forall>share. find_share_by_token s token = Some share \<longrightarrow>
        public_file L s token =
          (if \<not> fs_is_public share
           then Inl (HTTPException 404 ''File not found or not public'', s)
           else if fs_is_archived share
           then Inr (TemplateResponse
                       (Some ''This file has been archived and is no longer available.'')
                       (fs_file_path share) None None, s)
           else if \<not> is_live (get_latest_version s (fs_file_path share))
           then Inl (HTTPException 404 ''File not found or deleted'', s)
           else case get_object s (fs_file_path share) of
                  None \<Rightarrow> Inl (HTTPException 404 ''File content not found'', s)
                | Some body \<Rightarrow>
                    if is_text_file (fs_file_path share)
                    then Inr (TemplateResponse None (fs_file_path share)
                                (Some (utf8_decode L body)) (Some (int (length body))), s)
                    else Inr (Response body (guess_content_type (fs_file_path share))
                                (attachment (fs_file_path share)), s)))"
proof (intro conjI impI allI)
  assume "find_share_by_path s path = None"
  then show "public_file_raw s path =
      Inl (HTTPException 404 ''File not found or not public'', s)"
    by (simp add: public_file_raw_def raise_same)
next
  fix share
  assume f: "find_share_by_path s path = Some share"
  then have "fs_file_path share = path"
    by (rule find_share_by_path_path)
  with f show "public_file_raw s path =
          (if \<not> fs_is_public share
           then Inl (HTTPException 404 ''File not found or not public'', s)
           else if fs_is_archived share
           then Inl (HTTPException 410 ''File has been archived'', s)
           else if \<not> is_live (get_latest_version s path)
           then Inl (HTTPException 404 ''File not found or deleted'', s)
           else case get_object s path of
                  None \<Rightarrow> Inl (HTTPException 404 ''File content not found'', s)
                | Some body \<Rightarrow>
                    Inr (Response body (guess_content_type path) (attachment path), s))"
    by (simp add: public_file_raw_def raise_same split: option.split)
next
  assume "find_share_by_token s token = None"
  then show "public_file L s token =
      Inl (HTTPException 404 ''File not found or not public'', s)"
    by (simp add: public_file_def raise_same)
next
  fix share
  assume "find_share_by_token s token = Some share"
  then show "public_file L s token =
          (if \<not> fs_is_public share
           then Inl (HTTPException 404 ''File not found or not public'', s)
           else if fs_is_archived share
           then Inr (TemplateResponse
                       (Some ''This file has been archived and is no longer available.'')
                       (fs_file_path share) None None, s)
           else if \<not> is_live (get_latest_version s (fs_file_path share))
           then Inl (HTTPException 404 ''File not found or deleted'', s)
           else case get_object s (fs_file_path share) of
                  None \<Rightarrow> Inl (HTTPException 404 ''File content not found'', s)
                | Some body \<Rightarrow>
                    if is_text_file (fs_file_path share)
                    then Inr (TemplateResponse None (fs_file_path share)
                                (Some (utf8_decode L body)) (Some (int (length body))), s)
                    else Inr (Response body (guess_content_type (fs_file_path share))
                                (attachment (fs_file_path share)), s))"
    by (simp add: public_file_def raise_same split: option.split)
qed

lemmas share_state_defs =
  share_state_def demo_state_def demo_fv_def find_share_by_path_def find_share_by_token_def
  is_live_def get_latest_version_def get_object_def guess_content_type_def attachment_def
  rsplit_last_def lower_def lower_char_def content_types_def is_text_file_def startswith_def
  lib0_def

theorem public_read_witness:
  "find_share_by_path share_state ''none.txt'' = None
   \<and> public_file_raw share_state ''none.txt'' =
       Inl (HTTPException 404 ''File not found or not public'', share_state)
   \<and> find_share_by_path share_state ''c.txt'' =
       Some \<lparr>fs_id = 3, fs_file_path = ''c.txt'', fs_token = ''tok-c'', fs_is_public = True,
             fs_is_archived = False, fs_created_by_id = 1\<rparr>
   \<and> public_file_raw share_state ''c.txt'' =
       Inr (Response ''hi'' ''text/plain'' ''attachment; filename=\"c.txt\"'', share_state)
   \<and> find_share_by_token share_state ''tok-none'' = None
   \<and> public_file lib0 share_state ''tok-none'' =
       Inl (HTTPException 404 ''File not found or not public'', share_state)
   \<and> find_share_by_token share_state ''tok-c'' =
       Some \<lparr>fs_id = 3, fs_file_path = ''c.txt'', fs_token = ''tok-c'', fs_is_public = True,
             fs_is_archived = False, fs_created_by_id = 1\<rparr>
   \<and> public_file lib0 share_state ''tok-c'' =
       Inr (TemplateResponse None ''c.txt'' (Some ''hi'') (Some 2), share_state)"
  using public_read [of share_state "''none.txt''" "''tok-none''" lib0]
        public_read [of share_state "''c.txt''" "''tok-c''" lib0]
  by (simp add: share_state_defs)

text \<open>
  The claim as written fails twice: by path, the public share of a path whose latest
  version is a tombstone is answered with 404, not 410; by token, an archived share is
  answered with a page, not with an error.
\<close>

theorem public_read_counterexample:
  "map_option fv_is_delete (get_latest_version share_state ''a.txt'') = Some True
   \<and> public_file_raw share_state ''a.txt'' =
       Inl (HTTPException 404 ''File not found or deleted'', share_state)
   \<and> public_file lib0 share_state ''tok-b'' =
       Inr (TemplateResponse (Some ''This file has been archived and is no longer available.'')
              ''b.txt'' None None, share_state)"
  by (simp add: public_file_raw_def public_file_def share_state_defs raise_same)

section \<open>Who may create a change request\<close>

lemma most_recent_None: "most_recent cs = None \<longleftrightarrow> cs = []"
  by (cases cs) (auto split: option.split)

lemma add_audit_fields [simp]:
  "file_versions (add_audit u a t r d s) = file_versions s"
  "change_requests (add_audit u a t r d s) = change_requests s"
  "change_request_files (add_audit u a t r d s) = change_request_files s"
  "users (add_audit u a t r d s) = users s"
  "s3_objects (add_audit u a t r d s) = s3_objects s"
  "next_fv_id (add_audit u a t r d s) = next_fv_id s"
  "clock (add_audit u a t r d s) = clock s"
  "uuid_count (add_audit u a t r d s) = uuid_count s"
  by (simp_all add: add_audit_def)

lemma stage_file_in_cr_delete:
  "\<exists>crf s'. stage_file_in_cr L s cr p delete None = Inr (crf, s')
     \<and> change_requests s' = change_requests s"
proof -
  have "\<exists>x. stage_file_in_cr L s cr p delete None = Inr x
          \<and> change_requests (snd x) = change_requests s"
    by (simp add: stage_file_in_cr_def Let_def split_beta)
  then show ?thesis by auto
qed

lemma get_or_create_draft_cr_new:
  assumes "\<forall>c \<in> set (change_requests s). cr_author_id c = uid user \<longrightarrow> cr_status c \<noteq> draft"
  shows "change_requests (snd (get_or_create_draft_cr s user)) =
           change_requests s @ [fst (get_or_create_draft_cr s user)]"
    and "cr_author_id (fst (get_or_create_draft_cr s user)) = uid user"
    and "cr_status (fst (get_or_create_draft_cr s user)) = draft"
    and "cr_id (fst (get_or_create_draft_cr s user)) = next_cr_id s"
proof -
  have "filter (\<lambda>c. cr_author_id c = uid user \<and> cr_status c = draft) (change_requests s) = []"
    using assms by (auto simp add: filter_empty_conv)
  then have m: "most_recent (filter (\<lambda>c. cr_author_id c = uid user \<and> cr_status c = draft)
                   (change_requests s)) = None"
    by (simp add: most_recent_None)
  show "change_requests (snd (get_or_create_draft_cr s user)) =
           change_requests s @ [fst (get_or_create_draft_cr s user)]"
    and "cr_author_id (fst (get_or_create_draft_cr s user)) = uid user"
    and "cr_status (fst (get_or_create_draft_cr s user)) = draft"
    and "cr_id (fst (get_or_create_draft_cr s user)) = next_cr_id s"
    by (simp_all add: get_or_create_draft_cr_def m Let_def)
qed

text \<open>
  Claim C9, as the routes have it. For an actor without a write role,
  \<^verbatim>\<open>create_change_request\<close>, \<^verbatim>\<open>save_file\<close>, \<^verbatim>\<open>upload_file\<close> and
  \<^verbatim>\<open>restore_version\<close> fail with 403 and leave the state as it was. \<^verbatim>\<open>delete_file\<close>
  does not depend on the role alone: it fails (404 when the file is not live, 403
  otherwise) and leaves the state as it was unless the actor is the author of the latest
  version of the live file; for that author it succeeds, and when the author has no
  draft it creates one on their behalf.
\<close>

theorem change_set_creation_permission:
  assumes "role user \<notin> WRITE_ROLES"
  shows "create_change_request s creq user =
           Inl (HTTPException 403 ''Insufficient permissions'', s)
       \<and> save_file L s sreq user = Inl (HTTPException 403 ''Insufficient permissions'', s)
       \<and> upload_file L settings s path message body user =
           Inl (HTTPException 403 ''Insufficient permissions'', s)
       \<and> restore_version L s path version user =
           Inl (HTTPException 403 ''Insufficient permissions'', s)
       \<and> (case get_latest_version s (strip_slash path) of
            None \<Rightarrow> delete_file L s path user =
                      Inl (HTTPException 404 ''File not found or already deleted'', s)
          | Some latest \<Rightarrow>
              if fv_is_delete latest
              then delete_file L s path user =
                     Inl (HTTPException 404 ''File not found or already deleted'', s)
              else if fv_author s latest = None \<or> fv_author_id latest \<noteq> uid user
              then delete_file L s path user =
                     Inl (HTTPException 403 ''Insufficient permissions to delete this file'', s)
              else \<exists>r s'. delete_file L s path user = Inr (r, s')
                     \<and> ((\<forall>c \<in> set (change_requests s).
                            cr_author_id c = uid user \<longrightarrow> cr_status c \<noteq> draft) \<longrightarrow>
                          (\<exists>c. change_requests s' = change_requests s @ [c]
                             \<and> cr_author_id c = uid user \<and> cr_status c = draft)))"
proof -
  have c: "create_change_request s creq user =
           Inl (HTTPException 403 ''Insufficient permissions'', s)"
    using assms by (simp add: create_change_request_def require_role_def WRITE_ROLES_def raise_same)
  have sv: "save_file L s sreq user = Inl (HTTPException 403 ''Insufficient permissions'', s)"
    using assms by (simp add: save_file_def require_role_def raise_same)
  have u: "upload_file L settings s path message body user =
           Inl (HTTPException 403 ''Insufficient permissions'', s)"
    using assms by (simp add: upload_file_def require_role_def raise_same)
  have r: "restore_version L s path version user =
           Inl (HTTPException 403 ''Insufficient permissions'', s)"
    using assms by (simp add: restore_version_def require_role_def raise_same)
  have d: "case get_latest_version s (strip_slash path) of
            None \<Rightarrow> delete_file L s path user =
                      Inl (HTTPException 404 ''File not found or already deleted'', s)
          | Some latest \<Rightarrow>
              if fv_is_delete latest
              then delete_file L s path user =
                     Inl (HTTPException 404 ''File not found or already deleted'', s)
              else if fv_author s latest = None \<or> fv_author_id latest \<noteq> uid user
              then delete_file L s path user =
                     Inl (HTTPException 403 ''Insufficient permissions to delete this file'', s)
              else \<exists>r s'. delete_file L s path user = Inr (r, s')
                     \<and> ((\<forall>c \<in> set (change_requests s).
                            cr_author_id c = uid user \<longrightarrow> cr_status c \<noteq> draft) \<longrightarrow>
                          (\<exists>c. change_requests s' = change_requests s @ [c]
                             \<and> cr_author_id c = uid user \<and> cr_status c = draft))"
  proof (cases "get_latest_version s (strip_slash path)")
    case None
    then show ?thesis by (simp add: delete_file_def raise_same)
  next
    case (Some latest)
    show ?thesis
    proof (cases "fv_is_delete latest \<or> fv_author s latest = None \<or> fv_author_id latest \<noteq> uid user")
      case True
      with Some assms show ?thesis by (auto simp add: delete_file_def raise_same)
    next
      case False
      let ?g = "get_or_create_draft_cr s user"
      from stage_file_in_cr_delete [of L "snd ?g" "fst ?g" "strip_slash path"]
      obtain crf s2 where st: "stage_file_in_cr L (snd ?g) (fst ?g) (strip_slash path) delete None =
                                 Inr (crf, s2)"
        and c2: "change_requests s2 = change_requests (snd ?g)"
        by blast
      let ?s3 = "add_audit (uid user) ''file.stage_delete'' ''file'' (strip_slash path)
                   [(''cr_id'', cr_id (fst ?g))] s2"
      have eq: "delete_file L s path user =
          Inr ((cr_id (fst ?g), strip_slash path, ''delete'',
                length (cr_files ?s3 (cr_id (fst ?g)))), ?s3)"
        using Some False st by (auto simp add: delete_file_def Let_def split_beta)
      have "change_requests ?s3 = change_requests (snd ?g)"
        by (simp add: c2)
      then have "(\<forall>c \<in> set (change_requests s).
                    cr_author_id c = uid user \<longrightarrow> cr_status c \<noteq> draft) \<longrightarrow>
                 (\<exists>c. change_requests ?s3 = change_requests s @ [c]
                    \<and> cr_author_id c = uid user \<and> cr_status c = draft)"
        using get_or_create_draft_cr_new [of s user] by auto
      with eq Some False show ?thesis by auto
    qed
  qed
  from c sv u r d show ?thesis by blast
qed

theorem change_set_creation_permission_witness:
  "role vic \<notin> WRITE_ROLES
   \<and> create_change_request demo_state \<lparr>ccr_title = ''T'', ccr_description = []\<rparr> vic =
       Inl (HTTPException 403 ''Insufficient permissions'', demo_state)
   \<and> save_file lib0 demo_state \<lparr>sfr_path = ''x.txt'', sfr_content = ''x'', sfr_message = []\<rparr> vic =
       Inl (HTTPException 403 ''Insufficient permissions'', demo_state)
   \<and> upload_file lib0 \<lparr>max_file_size_mb = 100\<rparr> demo_state ''x.txt'' [] ''x'' vic =
       Inl (HTTPException 403 ''Insufficient permissions'', demo_state)
   \<and> restore_version lib0 demo_state ''x.txt'' 1 vic =
       Inl (HTTPException 403 ''Insufficient permissions'', demo_state)
   \<and> delete_file lib0 demo_state ''x.txt'' vic =
       Inl (HTTPException 404 ''File not found or already deleted'', demo_state)
   \<and> get_latest_version viewer_state (strip_slash ''notes.txt'') =
       Some (demo_fv 1 ''notes.txt'' 1 4 False)
   \<and> fv_author viewer_state (demo_fv 1 ''notes.txt'' 1 4 False) = Some vic
   \<and> change_requests viewer_state = []
   \<and> (\<exists>r s'. delete_file lib0 viewer_state ''notes.txt'' vic = Inr (r, s')
         \<and> (\<exists>c. change_requests s' = [c] \<and> cr_author_id c = 4 \<and> cr_status c = draft))"
proof -
  have v: "role vic \<notin> WRITE_ROLES"
    by (simp add: vic_def WRITE_ROLES_def)
  have l: "get_latest_version demo_state (strip_slash ''x.txt'') = None"
    by (simp add: get_latest_version_def demo_state_def)
  have l2: "get_latest_version viewer_state (strip_slash ''notes.txt'') =
              Some (demo_fv 1 ''notes.txt'' 1 4 False)"
    by (simp add: get_latest_version_def viewer_state_def demo_state_def strip_slash_def
        demo_fv_def)
  have a2: "fv_author viewer_state (demo_fv 1 ''notes.txt'' 1 4 False) = Some vic"
    by (simp add: fv_author_def viewer_state_def demo_state_def demo_fv_def alice_def bob_def
        root_def vic_def)
  have c2: "change_requests viewer_state = []"
    by (simp add: viewer_state_def demo_state_def)
  have d2: "fv_author_id (demo_fv 1 ''notes.txt'' 1 4 False) = uid vic"
           "\<not> fv_is_delete (demo_fv 1 ''notes.txt'' 1 4 False)" "uid vic = 4"
    by (simp_all add: demo_fv_def vic_def)
  have first: "create_change_request demo_state \<lparr>ccr_title = ''T'', ccr_description = []\<rparr> vic =
       Inl (HTTPException 403 ''Insufficient permissions'', demo_state)
   \<and> save_file lib0 demo_state \<lparr>sfr_path = ''x.txt'', sfr_content = ''x'', sfr_message = []\<rparr> vic =
       Inl (HTTPException 403 ''Insufficient permissions'', demo_state)
   \<and> upload_file lib0 \<lparr>max_file_size_mb = 100\<rparr> demo_state ''x.txt'' [] ''x'' vic =
       Inl (HTTPException 403 ''Insufficient permissions'', demo_state)
   \<and> restore_version lib0 demo_state ''x.txt'' 1 vic =
       Inl (HTTPException 403 ''Insufficient permissions'', demo_state)
   \<and> delete_file lib0 demo_state ''x.txt'' vic =
       Inl (HTTPException 404 ''File not found or already deleted'', demo_state)"
    using change_set_creation_permission [OF v, of demo_state
            "\<lparr>ccr_title = ''T'', ccr_description = []\<rparr>" lib0
            "\<lparr>sfr_path = ''x.txt'', sfr_content = ''x'', sfr_message = []\<rparr>"
            "\<lparr>max_file_size_mb = 100\<rparr>" "''x.txt''" "[]" "''x''" 1]
    by (simp add: l)
  have second: "\<exists>r s'. delete_file lib0 viewer_state ''notes.txt'' vic = Inr (r, s')
         \<and> (\<exists>c. change_requests s' = [c] \<and> cr_author_id c = 4 \<and> cr_status c = draft)"
    using change_set_creation_permission [OF v, of viewer_state
            "\<lparr>ccr_title = ''T'', ccr_description = []\<rparr>" lib0
            "\<lparr>sfr_path = ''x.txt'', sfr_content = ''x'', sfr_message = []\<rparr>"
            "\<lparr>max_file_size_mb = 100\<rparr>" "''notes.txt''" "[]" "''x''" 1]
    by (simp add: l2 a2 c2 d2)
  from v first l2 a2 c2 second show ?thesis by blast
qed

text \<open>
  The claim as written fails for \<^verbatim>\<open>delete_file\<close>: vic is a viewer and the author of the
  latest version of a live file; the request to delete it succeeds and creates a draft
  change request authored by vic where there was none.
\<close>

theorem change_set_creation_permission_counterexample:
  "role vic \<notin> WRITE_ROLES
   \<and> change_requests viewer_state = []
   \<and> (case delete_file lib0 viewer_state ''notes.txt'' vic of
        Inl e \<Rightarrow> False
      | Inr (r, s') \<Rightarrow>
          r = (1, ''notes.txt'', ''delete'', 1)
          \<and> map (\<lambda>c. (cr_id c, cr_author_id c, cr_status c)) (change_requests s') =
              [(1, 4, draft)])"
  by (simp add: delete_file_def viewer_state_def demo_state_def demo_fv_def vic_def
      WRITE_ROLES_def strip_slash_def get_latest_version_def fv_author_def alice_def bob_def
      root_def get_or_create_draft_cr_def stage_file_in_cr_def remove_entries_def is_live_def
      db_add_crf_def add_audit_def cr_files_def Let_def)

section \<open>The merge loop\<close>

lemma db_add_fv_fields [simp]:
  "change_requests (db_add_fv p n k sz h a m d s) = change_requests s"
  "change_request_files (db_add_fv p n k sz h a m d s) = change_request_files s"
  "users (db_add_fv p n k sz h a m d s) = users s"
  "next_cr_id (db_add_fv p n k sz h a m d s) = next_cr_id s"
  "next_crf_id (db_add_fv p n k sz h a m d s) = next_crf_id s"
  "clock (db_add_fv p n k sz h a m d s) = clock s"
  "uuid_count (db_add_fv p n k sz h a m d s) = uuid_count s"
  "s3_objects (db_add_fv p n k sz h a m d s) = s3_objects s"
  "file_versions (db_add_fv p n k sz h a m d s) = file_versions s @
     [\<lparr>fv_id = next_fv_id s, fv_file_path = p, fv_version = n, fv_s3_key = k, fv_size = sz,
       fv_content_hash = h, fv_author_id = a, fv_message = m, fv_is_delete = d,
       fv_created_at = clock s\<rparr>]"
  by (simp_all add: db_add_fv_def)

lemma generate_version_key_fields [simp]:
  "fst (generate_version_key L s) = ''_versions/'' @ uuid4_hex L (uuid_count s)"
  "file_versions (snd (generate_version_key L s)) = file_versions s"
  "change_requests (snd (generate_version_key L s)) = change_requests s"
  "change_request_files (snd (generate_version_key L s)) = change_request_files s"
  "users (snd (generate_version_key L s)) = users s"
  "next_fv_id (snd (generate_version_key L s)) = next_fv_id s"
  "clock (snd (generate_version_key L s)) = clock s"
  "s3_objects (snd (generate_version_key L s)) = s3_objects s"
  "uuid_count (snd (generate_version_key L s)) = Suc (uuid_count s)"
  by (simp_all add: generate_version_key_def)

lemma rows_of_cong: "file_versions s' = file_versions s \<Longrightarrow> rows_of s' p = rows_of s p"
  by (simp add: rows_of_def)

lemma max_version_versions_of:
  "max_version s p = (if versions_of s p = [] then None else Some (Max (set (versions_of s p))))"
proof (cases "versions_of s p")
  case Nil
  then show ?thesis by (simp add: max_version_def versions_of_def rows_of_def)
next
  case (Cons x xs)
  then have "max_version s p = Some (fold max xs x)"
    by (simp add: max_version_def versions_of_def rows_of_def)
  also have "fold max xs x = Max (set (x # xs))"
    by (rule Max.set_eq_fold [symmetric])
  finally show ?thesis using Cons by simp
qed

lemma next_ver_versions_of:
  "next_ver s p = (if versions_of s p = [] then 1 else Max (set (versions_of s p)) + 1)"
  by (simp add: next_ver_def max_version_versions_of)

lemma get_next_version_next_ver: "get_next_version s p = next_ver s p"
  by (simp add: get_next_version_def next_ver_def)

subsection \<open>One step of the merge loop\<close>

lemma merge_file_skip:
  assumes "crf_action f \<noteq> delete" "staged_key f = None"
  shows "merge_file L cr f s = Some s"
  using assms by (cases "crf_action f") (auto simp add: merge_file_def staged_key_def split: option.splits if_splits)

lemma merge_file_write:
  assumes "crf_action f \<noteq> delete" "staged_key f = Some k" "s3_objects s k = Some (content, ct)"
  shows "\<exists>s' v. merge_file L cr f s = Some s'
     \<and> file_versions s' = file_versions s @ [v]
     \<and> committed_as L cr (crf_file_path f) (next_ver s (crf_file_path f)) content v
     \<and> s3_objects s' = ((s3_objects s)
           (''_versions/'' @ uuid4_hex L (uuid_count s) \<mapsto> (content, guess_content_type (crf_file_path f)),
            crf_file_path f \<mapsto> (content, guess_content_type (crf_file_path f))))(k := None)
     \<and> change_requests s' = change_requests s
     \<and> change_request_files s' = change_request_files s
     \<and> users s' = users s \<and> clock s' = clock s"
proof -
  from assms(2) have k: "crf_staging_s3_key f = Some k" "k \<noteq> []"
    by (auto simp add: staged_key_def split: option.splits if_splits)
  from assms(1) have a: "crf_action f \<in> {create, edit}"
    by (cases "crf_action f") auto
  show ?thesis
    using a k assms(3)
    by (simp add: merge_file_def get_object_def Let_def split_beta committed_as_def
        compute_hash_def startswith_def)
qed

lemma merge_file_delete:
  assumes "crf_action f = delete"
  shows "\<exists>s' v. merge_file L cr f s = Some s'
     \<and> file_versions s' = file_versions s @ [v]
     \<and> tombstone_as cr (crf_file_path f) (next_ver s (crf_file_path f)) v
     \<and> s3_objects s' = (s3_objects s)(crf_file_path f := None)
     \<and> change_requests s' = change_requests s
     \<and> change_request_files s' = change_request_files s
     \<and> users s' = users s \<and> clock s' = clock s"
  using assms by (simp add: merge_file_def Let_def tombstone_as_def)


lemma sw_staging_reserved: "startswith x ''_staging/'' \<Longrightarrow> startswith x ''_''"
  by (auto simp add: startswith_def prefix_def)

lemma sw_staging_not_version: "startswith x ''_staging/'' \<Longrightarrow> x \<noteq> ''_versions/'' @ u"
  by (auto simp add: startswith_def prefix_def)

lemma sw_unreserved_not_version: "\<not> startswith x ''_'' \<Longrightarrow> x \<noteq> ''_versions/'' @ u"
  by (auto simp add: startswith_def prefix_def)

lemma rows_of_append:
  "file_versions s' = file_versions s @ [v] \<Longrightarrow>
   rows_of s' x = (if fv_file_path v = x then rows_of s x @ [v] else rows_of s x)"
  by (simp add: rows_of_def)

lemma next_ver_cong: "rows_of s' p = rows_of s p \<Longrightarrow> next_ver s' p = next_ver s p"
  by (simp add: next_ver_versions_of versions_of_def)

lemma merge_file_step:
  assumes u: "\<not> startswith (crf_file_path f) ''_''"
    and k: "case staged_key f of None \<Rightarrow> True
            | Some k \<Rightarrow> crf_action f \<noteq> delete \<and> startswith k ''_staging/'' \<and> s3_objects s k \<noteq> None"
  shows "\<exists>s'. merge_file L cr f s = Some s'
     \<and> change_requests s' = change_requests s
     \<and> change_request_files s' = change_request_files s
     \<and> users s' = users s \<and> clock s' = clock s
     \<and> merge_outcome L cr s s' f
     \<and> (\<forall>x. x \<noteq> crf_file_path f \<longrightarrow> rows_of s' x = rows_of s x)
     \<and> (\<forall>x. \<not> startswith x ''_'' \<and> x \<noteq> crf_file_path f \<longrightarrow> s3_objects s' x = s3_objects s x)
     \<and> (\<forall>x. startswith x ''_staging/'' \<and> staged_key f \<noteq> Some x \<longrightarrow> s3_objects s' x = s3_objects s x)"
proof (cases "crf_action f = delete")
  case True
  from merge_file_delete [OF True, of L cr s]
  obtain s' v where m: "merge_file L cr f s = Some s'"
    and fv: "file_versions s' = file_versions s @ [v]"
    and t: "tombstone_as cr (crf_file_path f) (next_ver s (crf_file_path f)) v"
    and o: "s3_objects s' = (s3_objects s)(crf_file_path f := None)"
    and r: "change_requests s' = change_requests s" "change_request_files s' = change_request_files s"
           "users s' = users s" "clock s' = clock s"
    by blast
  from t have pv: "fv_file_path v = crf_file_path f" by (simp add: tombstone_as_def)
  have "merge_outcome L cr s s' f"
    using True t o pv by (auto simp add: merge_outcome_def Let_def rows_of_append [OF fv])
  moreover have "\<forall>x. x \<noteq> crf_file_path f \<longrightarrow> rows_of s' x = rows_of s x"
    using pv by (simp add: rows_of_append [OF fv])
  moreover have "\<forall>x. \<not> startswith x ''_'' \<and> x \<noteq> crf_file_path f \<longrightarrow> s3_objects s' x = s3_objects s x"
    using o by simp
  moreover have "\<forall>x. startswith x ''_staging/'' \<and> staged_key f \<noteq> Some x \<longrightarrow> s3_objects s' x = s3_objects s x"
    using o u by (auto dest: sw_staging_reserved)
  ultimately show ?thesis using m r by blast
next
  case False
  show ?thesis
  proof (cases "staged_key f")
    case None
    with False have "merge_file L cr f s = Some s" by (simp add: merge_file_skip)
    moreover have "merge_outcome L cr s s f"
      using False None by (simp add: merge_outcome_def)
    ultimately show ?thesis by simp
  next
    case (Some key)
    with k obtain content ct where b: "s3_objects s key = Some (content, ct)"
      and sk: "startswith key ''_staging/''"
      by fastforce
    from merge_file_write [OF False Some b, of L cr]
    obtain s' v where m: "merge_file L cr f s = Some s'"
      and fv: "file_versions s' = file_versions s @ [v]"
      and t: "committed_as L cr (crf_file_path f) (next_ver s (crf_file_path f)) content v"
      and o: "s3_objects s' = ((s3_objects s)
           (''_versions/'' @ uuid4_hex L (uuid_count s) \<mapsto> (content, guess_content_type (crf_file_path f)),
            crf_file_path f \<mapsto> (content, guess_content_type (crf_file_path f))))(key := None)"
      and r: "change_requests s' = change_requests s" "change_request_files s' = change_request_files s"
             "users s' = users s" "clock s' = clock s"
      by blast
    from t have pv: "fv_file_path v = crf_file_path f" by (simp add: committed_as_def)
    from sk u have kp: "key \<noteq> crf_file_path f"
      by (auto dest: sw_staging_reserved)
    have "merge_outcome L cr s s' f"
      using False Some t o pv b kp
      by (auto simp add: merge_outcome_def Let_def rows_of_append [OF fv])
    moreover have "\<forall>x. x \<noteq> crf_file_path f \<longrightarrow> rows_of s' x = rows_of s x"
      using pv by (simp add: rows_of_append [OF fv])
    moreover have "\<forall>x. \<not> startswith x ''_'' \<and> x \<noteq> crf_file_path f \<longrightarrow> s3_objects s' x = s3_objects s x"
      using o sk by (auto dest: sw_staging_reserved sw_unreserved_not_version)
    moreover have "\<forall>x. startswith x ''_staging/'' \<and> staged_key f \<noteq> Some x \<longrightarrow> s3_objects s' x = s3_objects s x"
      using o u Some by (auto dest: sw_staging_reserved sw_staging_not_version)
    ultimately show ?thesis using m r by blast
  qed
qed


lemma merge_outcome_transfer:
  assumes "merge_outcome L cr s1 s' g"
    and "rows_of s1 (crf_file_path g) = rows_of s (crf_file_path g)"
    and "s3_objects s1 (crf_file_path g) = s3_objects s (crf_file_path g)"
    and "\<And>k. staged_key g = Some k \<Longrightarrow> s3_objects s1 k = s3_objects s k"
  shows "merge_outcome L cr s s' g"
  using assms next_ver_cong [OF assms(2)]
  by (auto simp add: merge_outcome_def Let_def split: option.splits)

lemma merge_outcome_extend:
  assumes "merge_outcome L cr s s1 f"
    and "rows_of s' (crf_file_path f) = rows_of s1 (crf_file_path f)"
    and "s3_objects s' (crf_file_path f) = s3_objects s1 (crf_file_path f)"
    and "\<And>k. staged_key f = Some k \<Longrightarrow> s3_objects s' k = s3_objects s1 k"
  shows "merge_outcome L cr s s' f"
  using assms
  by (auto simp add: merge_outcome_def Let_def split: option.splits)

lemma set_map_filter_iff:
  "k \<in> set (List.map_filter h xs) \<longleftrightarrow> (\<exists>x \<in> set xs. h x = Some k)"
  by (induction xs) (auto split: option.splits)

lemma mergeable_Cons:
  assumes "mergeable s (f # fs)"
  shows "\<not> startswith (crf_file_path f) ''_''"
    and "case staged_key f of None \<Rightarrow> True
         | Some k \<Rightarrow> crf_action f \<noteq> delete \<and> startswith k ''_staging/'' \<and> s3_objects s k \<noteq> None"
    and "crf_file_path f \<notin> crf_file_path ` set fs"
    and "\<And>g k. g \<in> set fs \<Longrightarrow> staged_key g = Some k \<Longrightarrow> staged_key f \<noteq> Some k"
    and "\<And>g k. g \<in> set fs \<Longrightarrow> staged_key g = Some k \<Longrightarrow> startswith k ''_staging/''"
    and "\<And>g. g \<in> set fs \<Longrightarrow> \<not> startswith (crf_file_path g) ''_''"
proof -
  from assms show "\<not> startswith (crf_file_path f) ''_''"
    and "case staged_key f of None \<Rightarrow> True
         | Some k \<Rightarrow> crf_action f \<noteq> delete \<and> startswith k ''_staging/'' \<and> s3_objects s k \<noteq> None"
    and "crf_file_path f \<notin> crf_file_path ` set fs"
    by (simp_all add: mergeable_def)
  from assms have d: "distinct (List.map_filter staged_key (f # fs))"
    by (simp add: mergeable_def)
  show "staged_key f \<noteq> Some k" if "g \<in> set fs" "staged_key g = Some k" for g k
  proof
    assume e: "staged_key f = Some k"
    from that have "k \<in> set (List.map_filter staged_key fs)"
      by (auto simp add: set_map_filter_iff)
    with d e show False by simp
  qed
  show "startswith k ''_staging/''" if "g \<in> set fs" "staged_key g = Some k" for g k
    using assms that by (fastforce simp add: mergeable_def)
  show "\<not> startswith (crf_file_path g) ''_''" if "g \<in> set fs" for g
    using assms that by (simp add: mergeable_def)
qed

lemma mergeable_tail:
  assumes "mergeable s (f # fs)"
    and "\<And>x. startswith x ''_staging/'' \<and> staged_key f \<noteq> Some x \<Longrightarrow> s3_objects s1 x = s3_objects s x"
  shows "mergeable s1 fs"
proof -
  have d: "distinct (map crf_file_path fs)" "distinct (List.map_filter staged_key fs)"
    using assms(1) by (auto simp add: mergeable_def split: option.splits)
  have "\<not> startswith (crf_file_path g) ''_''
           \<and> (case staged_key g of
                 None \<Rightarrow> True
               | Some k \<Rightarrow> crf_action g \<noteq> delete \<and> startswith k ''_staging/''
                            \<and> s3_objects s1 k \<noteq> None)" if g: "g \<in> set fs" for g
  proof (cases "staged_key g")
    case None
    with g assms(1) show ?thesis by (simp add: mergeable_def)
  next
    case (Some k)
    from g Some have "staged_key f \<noteq> Some k" by (rule mergeable_Cons(4) [OF assms(1)])
    moreover from g Some assms(1) have "crf_action g \<noteq> delete \<and> startswith k ''_staging/'' \<and> s3_objects s k \<noteq> None"
      by (fastforce simp add: mergeable_def)
    ultimately have "s3_objects s1 k = s3_objects s k" using assms(2) by blast
    with g Some assms(1) show ?thesis by (fastforce simp add: mergeable_def)
  qed
  with d show ?thesis by (simp add: mergeable_def)
qed

lemma merge_files_mergeable:
  assumes "mergeable s fs"
  shows "\<exists>s'. merge_files L cr fs s = Inr s'
     \<and> change_requests s' = change_requests s
     \<and> change_request_files s' = change_request_files s
     \<and> users s' = users s \<and> clock s' = clock s
     \<and> (\<forall>f \<in> set fs. merge_outcome L cr s s' f)
     \<and> (\<forall>x. x \<notin> crf_file_path ` set fs \<longrightarrow> rows_of s' x = rows_of s x)
     \<and> (\<forall>x. \<not> startswith x ''_'' \<and> x \<notin> crf_file_path ` set fs \<longrightarrow> s3_objects s' x = s3_objects s x)
     \<and> (\<forall>x. startswith x ''_staging/'' \<and> (\<forall>f \<in> set fs. staged_key f \<noteq> Some x) \<longrightarrow>
            s3_objects s' x = s3_objects s x)"
  using assms
proof (induction fs arbitrary: s)
  case Nil
  then show ?case by simp
next
  case (Cons f fs)
  note mc = mergeable_Cons [OF Cons.prems]
  from merge_file_step [OF mc(1) mc(2), of L cr]
  obtain s1 where m1: "merge_file L cr f s = Some s1"
    and r1: "change_requests s1 = change_requests s" "change_request_files s1 = change_request_files s"
            "users s1 = users s" "clock s1 = clock s"
    and o1: "merge_outcome L cr s s1 f"
    and rows1: "\<And>x. x \<noteq> crf_file_path f \<Longrightarrow> rows_of s1 x = rows_of s x"
    and obj1: "\<And>x. \<not> startswith x ''_'' \<and> x \<noteq> crf_file_path f \<Longrightarrow> s3_objects s1 x = s3_objects s x"
    and key1: "\<And>x. startswith x ''_staging/'' \<and> staged_key f \<noteq> Some x \<Longrightarrow> s3_objects s1 x = s3_objects s x"
    by blast
  have "mergeable s1 fs"
    using Cons.prems key1 by (rule mergeable_tail)
  from Cons.IH [OF this]
  obtain s' where m: "merge_files L cr fs s1 = Inr s'"
    and r: "change_requests s' = change_requests s1" "change_request_files s' = change_request_files s1"
           "users s' = users s1" "clock s' = clock s1"
    and o: "\<And>g. g \<in> set fs \<Longrightarrow> merge_outcome L cr s1 s' g"
    and rows: "\<And>x. x \<notin> crf_file_path ` set fs \<Longrightarrow> rows_of s' x = rows_of s1 x"
    and obj: "\<And>x. \<not> startswith x ''_'' \<and> x \<notin> crf_file_path ` set fs \<Longrightarrow> s3_objects s' x = s3_objects s1 x"
    and key: "\<And>x. startswith x ''_staging/'' \<and> (\<forall>f \<in> set fs. staged_key f \<noteq> Some x) \<Longrightarrow>
            s3_objects s' x = s3_objects s1 x"
    by blast
  have mf: "merge_files L cr (f # fs) s = Inr s'"
    using m1 m by simp
  have of: "merge_outcome L cr s s' f"
  proof (rule merge_outcome_extend [OF o1])
    show "rows_of s' (crf_file_path f) = rows_of s1 (crf_file_path f)"
      using mc(3) by (rule rows)
    show "s3_objects s' (crf_file_path f) = s3_objects s1 (crf_file_path f)"
      using mc(1) mc(3) by (intro obj conjI)
    show "s3_objects s' k = s3_objects s1 k" if "staged_key f = Some k" for k
    proof (rule key, intro conjI ballI)
      from that mc(2) show "startswith k ''_staging/''" by simp
      fix g assume "g \<in> set fs"
      then show "staged_key g \<noteq> Some k" using mc(4) [of g k] that by auto
    qed
  qed
  have og: "merge_outcome L cr s s' g" if g: "g \<in> set fs" for g
  proof (rule merge_outcome_transfer [OF o [OF g]])
    from g mc(3) have ne: "crf_file_path g \<noteq> crf_file_path f" by (metis imageI)
    then show "rows_of s1 (crf_file_path g) = rows_of s (crf_file_path g)" by (rule rows1)
    from ne mc(6) [OF g] show "s3_objects s1 (crf_file_path g) = s3_objects s (crf_file_path g)"
      by (intro obj1 conjI)
    show "s3_objects s1 k = s3_objects s k" if "staged_key g = Some k" for k
      using mc(4) [OF g that] mc(5) [OF g that] by (intro key1 conjI)
  qed
  have "\<forall>x. x \<notin> crf_file_path ` set (f # fs) \<longrightarrow> rows_of s' x = rows_of s x"
    using rows rows1 by auto
  moreover have "\<forall>x. \<not> startswith x ''_'' \<and> x \<notin> crf_file_path ` set (f # fs) \<longrightarrow>
                   s3_objects s' x = s3_objects s x"
    using obj obj1 by auto
  moreover have "\<forall>x. startswith x ''_staging/'' \<and> (\<forall>g \<in> set (f # fs). staged_key g \<noteq> Some x) \<longrightarrow>
            s3_objects s' x = s3_objects s x"
    using key key1 by auto
  ultimately show ?case
    using mf r r1 of og by auto
qed

section \<open>Version numbers\<close>

lemma contiguous_next:
  assumes "vs = [1..int (length vs)]"
  shows "(if vs = [] then 1 else Max (set vs) + 1) = int (length vs) + 1"
proof (cases "vs = []")
  case True
  then show ?thesis by simp
next
  case False
  then have n: "1 \<le> int (length vs)" by (cases vs) auto
  have "set vs = set [1..int (length vs)]"
    using assms by (rule arg_cong)
  then have s: "set vs = {1..int (length vs)}" by simp
  have "Max {1..int (length vs)} = int (length vs)"
    using n by (intro Max_eqI) auto
  with s False show ?thesis by simp
qed

lemma contiguous_snoc:
  assumes "vs = [1..int (length vs)]"
  shows "vs @ [int (length vs) + 1] = [1..int (length (vs @ [x]))]"
proof -
  have "[1..int (length vs) + 1] = [1..int (length vs)] @ [int (length vs) + 1]"
    by (simp add: upto_rec2)
  also have "[1..int (length vs)] = vs"
    using assms by (rule sym)
  finally have "[1..int (length vs) + 1] = vs @ [int (length vs) + 1]" .
  moreover have "int (length (vs @ [x])) = int (length vs) + 1" by simp
  ultimately show ?thesis by (simp only:)
qed

lemma merge_file_versions:
  assumes "merge_file L cr f s = Some s'"
  shows "versions_of s' p = versions_of s p \<or> versions_of s' p = versions_of s p @ [next_ver s p]"
  using assms
  by (auto simp add: merge_file_def versions_of_def rows_of_def Let_def split_beta
      split: if_splits option.splits)

lemma merge_file_contiguous:
  assumes "merge_file L cr f s = Some s'"
    and "versions_of s p = [1..int (length (versions_of s p))]"
  shows "prefix (versions_of s p) (versions_of s' p)
       \<and> versions_of s' p = [1..int (length (versions_of s' p))]"
proof -
  from merge_file_versions [OF assms(1), of p]
  show ?thesis
  proof
    assume "versions_of s' p = versions_of s p"
    with assms(2) show ?thesis by simp
  next
    assume a: "versions_of s' p = versions_of s p @ [next_ver s p]"
    have nv: "next_ver s p = int (length (versions_of s p)) + 1"
      using contiguous_next [OF assms(2)] by (simp only: next_ver_versions_of)
    have "versions_of s p @ [int (length (versions_of s p)) + 1] =
            [1..int (length (versions_of s p @ [next_ver s p]))]"
      by (rule contiguous_snoc [OF assms(2)])
    then have "versions_of s' p = [1..int (length (versions_of s' p))]"
      by (simp only: a nv)
    moreover have "prefix (versions_of s p) (versions_of s' p)"
      by (simp only: a prefixI)
    ultimately show ?thesis by (rule conjI [rotated])
  qed
qed

lemma merge_files_contiguous:
  assumes "merge_files L cr fs s = Inr s' \<or> merge_files L cr fs s = Inl s'"
    and "versions_of s p = [1..int (length (versions_of s p))]"
  shows "prefix (versions_of s p) (versions_of s' p)
       \<and> versions_of s' p = [1..int (length (versions_of s' p))]"
  using assms
proof (induction fs arbitrary: s)
  case Nil
  then show ?case by simp
next
  case (Cons f fs)
  show ?case
  proof (cases "merge_file L cr f s")
    case None
    with Cons.prems show ?thesis by simp
  next
    case (Some s1)
    from merge_file_contiguous [OF Some Cons.prems(2)]
    have p1: "prefix (versions_of s p) (versions_of s1 p)"
      and c1: "versions_of s1 p = [1..int (length (versions_of s1 p))]"
      by simp_all
    from Cons.prems(1) Some
    have "merge_files L cr fs s1 = Inr s' \<or> merge_files L cr fs s1 = Inl s'"
      by simp
    from Cons.IH [OF this c1] p1 show ?thesis
      by (auto intro: prefix_order.trans)
  qed
qed

lemma update_cr_fields [simp]:
  "file_versions (update_cr i g s) = file_versions s"
  "change_request_files (update_cr i g s) = change_request_files s"
  "users (update_cr i g s) = users s"
  "s3_objects (update_cr i g s) = s3_objects s"
  "clock (update_cr i g s) = clock s"
  "uuid_count (update_cr i g s) = uuid_count s"
  by (simp_all add: update_cr_def)

lemma versions_of_cong:
  "file_versions s' = file_versions s \<Longrightarrow> versions_of s' p = versions_of s p"
  by (simp add: versions_of_def rows_of_def)

lemma merge_change_request_contiguous:
  assumes "versions_of s p = [1..int (length (versions_of s p))]"
  shows "prefix (versions_of s p) (versions_of (state_of (merge_change_request L s cid user)) p)
       \<and> versions_of (state_of (merge_change_request L s cid user)) p =
           [1..int (length (versions_of (state_of (merge_change_request L s cid user)) p))]"
proof (cases "require_role {admin, approver, editor} user \<and>
              (\<exists>cr. find_cr s cid = Some cr \<and> cr_status cr = approved)")
  case False
  then have "state_of (merge_change_request L s cid user) = s"
    by (auto simp add: merge_change_request_def raise_same state_of_def split: option.splits)
  with assms show ?thesis by simp
next
  case True
  then obtain cr where cr: "find_cr s cid = Some cr" "cr_status cr = approved"
    and rr: "require_role {admin, approver, editor} user"
    by blast
  show ?thesis
  proof (cases "merge_files L cr (cr_files s cid) s")
    case (Inl s')
    then have "state_of (merge_change_request L s cid user) = s'"
      using cr rr by (simp add: merge_change_request_def raise_partial_def state_of_def)
    with merge_files_contiguous [of L cr "cr_files s cid" s s' p] Inl assms
    show ?thesis by simp
  next
    case (Inr s')
    then have "file_versions (state_of (merge_change_request L s cid user)) = file_versions s'"
      using cr rr by (simp add: merge_change_request_def state_of_def Let_def)
    then have "versions_of (state_of (merge_change_request L s cid user)) p = versions_of s' p"
      by (rule versions_of_cong)
    with merge_files_contiguous [of L cr "cr_files s cid" s s' p] Inr assms
    show ?thesis by simp
  qed
qed

text \<open>
  Claim C7. \<^verbatim>\<open>_get_next_version\<close>, and the same expression inlined in the merge loop,
  is the greatest version of the path plus one, and one when the path has no row. If the
  versions of a path, in the order its rows were appended, are \<open>1, 2, \<dots>, n\<close>
  (none when \<open>n = 0\<close>), then a merge request, whether it returns or raises, leaves
  them of that form again and keeps the old rows in front: successive merges allocate
  \<open>1, 2, 3, \<dots>\<close> with no gap and no reuse.
\<close>

theorem version_allocation:
  "get_next_version s p =
     (if versions_of s p = [] then 1 else Max (set (versions_of s p)) + 1)
   \<and> next_ver s p = get_next_version s p
   \<and> (versions_of s p = [1..int (length (versions_of s p))] \<longrightarrow>
        prefix (versions_of s p) (versions_of (state_of (merge_change_request L s cid user)) p)
        \<and> versions_of (state_of (merge_change_request L s cid user)) p =
            [1..int (length (versions_of (state_of (merge_change_request L s cid user)) p))])"
  using merge_change_request_contiguous [of s p L cid user]
  by (simp only: get_next_version_next_ver next_ver_versions_of) blast

lemmas merge_eval_defs =
  merge_change_request_def merge_file_def require_role_def find_cr_def cr_files_def
  get_object_def guess_content_type_def compute_hash_def next_ver_def max_version_def
  generate_version_key_def put_object_def delete_object_def db_add_fv_def update_cr_def
  add_audit_def rsplit_last_def lower_def lower_char_def content_types_def Let_def

lemmas approved_state_defs =
  approved_state_def demo_state_def demo_cr_def demo_crf_def demo_fv_def lib0_def
  alice_def bob_def

theorem version_allocation_witness:
  "versions_of approved_state ''a.txt'' =
     [1..int (length (versions_of approved_state ''a.txt''))]
   \<and> get_next_version approved_state ''a.txt'' = 3
   \<and> prefix (versions_of approved_state ''a.txt'')
        (versions_of (state_of (merge_change_request lib0 approved_state 1 bob)) ''a.txt'')
   \<and> versions_of (state_of (merge_change_request lib0 approved_state 1 bob)) ''a.txt'' =
       [1..int (length (versions_of (state_of (merge_change_request lib0 approved_state 1 bob))
                          ''a.txt''))]
   \<and> versions_of (state_of (merge_change_request lib0 approved_state 1 bob)) ''a.txt'' = [1, 2, 3]"
proof -
  have v: "versions_of approved_state ''a.txt'' = [1, 2]"
    by (simp add: versions_of_def rows_of_def approved_state_defs)
  have c: "versions_of approved_state ''a.txt'' =
             [1..int (length (versions_of approved_state ''a.txt''))]"
    by (simp add: v upto.simps)
  have e: "versions_of (state_of (merge_change_request lib0 approved_state 1 bob)) ''a.txt'' =
             [1, 2, 3]"
    by (simp add: versions_of_def rows_of_def state_of_def merge_eval_defs approved_state_defs)
  have n: "get_next_version approved_state ''a.txt'' = 3"
    using version_allocation [of approved_state "''a.txt''" lib0 1 bob] by (simp add: v)
  have p: "prefix (versions_of approved_state ''a.txt'')
        (versions_of (state_of (merge_change_request lib0 approved_state 1 bob)) ''a.txt'')
   \<and> versions_of (state_of (merge_change_request lib0 approved_state 1 bob)) ''a.txt'' =
       [1..int (length (versions_of (state_of (merge_change_request lib0 approved_state 1 bob))
                          ''a.txt''))]"
    using version_allocation [of approved_state "''a.txt''" lib0 1 bob] c by blast
  from c n p e show ?thesis by blast
qed

section \<open>The merge route on a mergeable change request\<close>

lemma latest_of_snoc:
  assumes "\<forall>x \<in> set xs. fv_version x < fv_version v"
  shows "latest_of (xs @ [v]) = Some v"
  using assms by (induction xs) auto

lemma next_ver_greater:
  assumes "x \<in> set (rows_of s p)"
  shows "fv_version x < next_ver s p"
proof -
  from assms have m: "fv_version x \<in> set (versions_of s p)"
    by (simp add: versions_of_def)
  then have "fv_version x \<le> Max (set (versions_of s p))"
    by (intro Max_ge) auto
  moreover from m have "versions_of s p \<noteq> []" by auto
  ultimately show ?thesis by (simp add: next_ver_versions_of)
qed

lemma latest_after_append:
  assumes "rows_of s' p = rows_of s p @ [v]" and "fv_version v = next_ver s p"
  shows "get_latest_version s' p = Some v"
proof -
  have "get_latest_version s' p = latest_of (rows_of s' p)"
    by (simp add: get_latest_version_def rows_of_def)
  also have "\<dots> = latest_of (rows_of s p @ [v])" by (simp only: assms(1))
  also have "\<dots> = Some v"
    using next_ver_greater [of _ s p] assms(2) by (intro latest_of_snoc) simp
  finally show ?thesis .
qed

lemma find_map_same:
  assumes "\<And>c. P (g c) = P c"
  shows "find P (map g cs) = map_option g (find P cs)"
  using assms by (induction cs) auto

lemma find_cr_update_cr:
  "find_cr (update_cr cid g s) i =
     map_option (\<lambda>c. if cr_id c = cid then (g c)\<lparr>cr_updated_at := clock s\<rparr> else c) (find_cr s i)"
  if "\<And>c. cr_id (g c) = cr_id c"
  using that by (simp add: find_cr_def update_cr_def find_map_same)

lemma find_cr_id: "find_cr s i = Some c \<Longrightarrow> cr_id c = i"
  by (auto simp add: find_cr_def find_Some_iff)

lemma find_cr_cong: "change_requests s' = change_requests s \<Longrightarrow> find_cr s' i = find_cr s i"
  by (simp add: find_cr_def)

lemma cr_files_cong:
  "change_request_files s' = change_request_files s \<Longrightarrow> cr_files s' i = cr_files s i"
  by (simp add: cr_files_def)

lemma merge_outcome_cong:
  assumes "merge_outcome L cr s s1 f" "file_versions s' = file_versions s1" "s3_objects s' = s3_objects s1"
  shows "merge_outcome L cr s s' f"
  using assms(1) unfolding merge_outcome_def rows_of_cong [OF assms(2)] assms(3) .

lemma merge_change_request_mergeable:
  assumes "role user \<in> {admin, approver, editor}"
    and "find_cr s cid = Some cr" and "cr_status cr = approved"
    and "mergeable s (cr_files s cid)"
  shows "\<exists>s'. merge_change_request L s cid user = Inr (merged, s')
     \<and> map_option cr_status (find_cr s' cid) = Some merged
     \<and> change_request_files s' = change_request_files s
     \<and> users s' = users s
     \<and> (\<forall>f \<in> set (cr_files s cid). merge_outcome L cr s s' f)
     \<and> (\<forall>x. x \<notin> crf_file_path ` set (cr_files s cid) \<longrightarrow> rows_of s' x = rows_of s x)
     \<and> (\<forall>x. \<not> startswith x ''_'' \<and> x \<notin> crf_file_path ` set (cr_files s cid) \<longrightarrow>
            s3_objects s' x = s3_objects s x)"
proof -
  from merge_files_mergeable [OF assms(4), of L cr]
  obtain s1 where m: "merge_files L cr (cr_files s cid) s = Inr s1"
    and r: "change_requests s1 = change_requests s" "change_request_files s1 = change_request_files s"
           "users s1 = users s"
    and o: "\<And>f. f \<in> set (cr_files s cid) \<Longrightarrow> merge_outcome L cr s s1 f"
    and rows: "\<And>x. x \<notin> crf_file_path ` set (cr_files s cid) \<Longrightarrow> rows_of s1 x = rows_of s x"
    and obj: "\<And>x. \<not> startswith x ''_'' \<and> x \<notin> crf_file_path ` set (cr_files s cid) \<Longrightarrow>
                s3_objects s1 x = s3_objects s x"
    by blast
  let ?s2 = "update_cr cid (\<lambda>c. c\<lparr>cr_status := merged, cr_merged_at := Some (clock s)\<rparr>) s1"
  let ?s3 = "add_audit (uid user) ''cr.merge'' ''change_request'' (str_int cid)
               [(''file_count'', int (length (cr_files s cid)))] ?s2"
  have e: "merge_change_request L s cid user = Inr (merged, ?s3)"
    using assms(1-3) m by (simp add: merge_change_request_def require_role_def Let_def)
  have f1: "find_cr s1 cid = Some cr"
    using assms(2) find_cr_cong [OF r(1), of cid] by simp
  have "find_cr ?s3 cid = find_cr ?s2 cid"
    by (rule find_cr_cong) simp
  also have "\<dots> = map_option (\<lambda>c. if cr_id c = cid
        then (c\<lparr>cr_status := merged, cr_merged_at := Some (clock s)\<rparr>)\<lparr>cr_updated_at := clock s1\<rparr>
        else c) (find_cr s1 cid)"
    by (rule find_cr_update_cr) simp
  finally have st: "map_option cr_status (find_cr ?s3 cid) = Some merged"
    using f1 find_cr_id [OF f1] by simp
  have fv: "file_versions ?s3 = file_versions s1" and ob: "s3_objects ?s3 = s3_objects s1"
    by simp_all
  have a1: "\<forall>f \<in> set (cr_files s cid). merge_outcome L cr s ?s3 f"
  proof
    fix f assume "f \<in> set (cr_files s cid)"
    then have "merge_outcome L cr s s1 f" by (rule o)
    then show "merge_outcome L cr s ?s3 f" using fv ob by (rule merge_outcome_cong)
  qed
  have a2: "\<forall>x. x \<notin> crf_file_path ` set (cr_files s cid) \<longrightarrow> rows_of ?s3 x = rows_of s x"
  proof (intro allI impI)
    fix x assume "x \<notin> crf_file_path ` set (cr_files s cid)"
    then have "rows_of s1 x = rows_of s x" by (rule rows)
    then show "rows_of ?s3 x = rows_of s x" by (simp only: rows_of_cong [OF fv])
  qed
  have a3: "\<forall>x. \<not> startswith x ''_'' \<and> x \<notin> crf_file_path ` set (cr_files s cid) \<longrightarrow>
            s3_objects ?s3 x = s3_objects s x"
  proof (intro allI impI)
    fix x assume "\<not> startswith x ''_'' \<and> x \<notin> crf_file_path ` set (cr_files s cid)"
    then have "s3_objects s1 x = s3_objects s x" by (rule obj)
    then show "s3_objects ?s3 x = s3_objects s x" by (simp only: ob)
  qed
  have a4: "change_request_files ?s3 = change_request_files s"
    using r(2) by simp
  have a5: "users ?s3 = users s"
    using r(3) by simp
  show ?thesis
    by (rule exI [of _ ?s3], intro conjI) (rule e st a4 a5 a1 a2 a3)+
qed

lemma merge_outcome_content:
  assumes "merge_outcome L cr s s' f" and "crf_action f \<noteq> delete" and "staged_key f = Some k"
  shows "\<exists>v content ct. s3_objects s k = Some (content, ct)
     \<and> get_latest_version s' (crf_file_path f) = Some v
     \<and> committed_as L cr (crf_file_path f) (next_ver s (crf_file_path f)) content v
     \<and> s3_objects s' (crf_file_path f) = Some (content, guess_content_type (crf_file_path f))"
proof -
  from assms obtain v content ct where b: "s3_objects s k = Some (content, ct)"
    and r: "rows_of s' (crf_file_path f) = rows_of s (crf_file_path f) @ [v]"
    and c: "committed_as L cr (crf_file_path f) (next_ver s (crf_file_path f)) content v"
    and o: "s3_objects s' (crf_file_path f) = Some (content, guess_content_type (crf_file_path f))"
    by (auto simp add: merge_outcome_def Let_def)
  from c have "fv_version v = next_ver s (crf_file_path f)" by (simp add: committed_as_def)
  with r have "get_latest_version s' (crf_file_path f) = Some v" by (rule latest_after_append)
  with b c o show ?thesis by blast
qed


section \<open>Base versions are not consulted\<close>

lemma rebase_fields [simp]:
  "file_versions (rebase g s) = file_versions s"
  "change_requests (rebase g s) = change_requests s"
  "s3_objects (rebase g s) = s3_objects s"
  "users (rebase g s) = users s"
  "clock (rebase g s) = clock s"
  "uuid_count (rebase g s) = uuid_count s"
  "next_fv_id (rebase g s) = next_fv_id s"
  by (simp_all add: rebase_def)

lemma cr_files_rebase:
  "cr_files (rebase g s) cid = map (\<lambda>f. f\<lparr>crf_base_version_id := g f\<rparr>) (cr_files s cid)"
  by (simp add: cr_files_def rebase_def filter_map comp_def)

lemma merge_file_rebase:
  "merge_file L cr (f\<lparr>crf_base_version_id := b\<rparr>) (rebase g s) =
     map_option (rebase g) (merge_file L cr f s)"
  by (simp add: merge_file_def rebase_def get_object_def next_ver_def max_version_def
      generate_version_key_def put_object_def delete_object_def db_add_fv_def Let_def
      split: option.split)

lemma merge_files_rebase:
  "merge_files L cr (map (\<lambda>f. f\<lparr>crf_base_version_id := h f\<rparr>) fs) (rebase g s) =
     map_sum (rebase g) (rebase g) (merge_files L cr fs s)"
  by (induction fs arbitrary: s) (simp_all add: merge_file_rebase split: option.split)

lemma merge_change_request_rebase:
  "merge_change_request L (rebase g s) cid user =
     (case merge_change_request L s cid user of
        Inl (e, s') \<Rightarrow> Inl (e, rebase g s')
      | Inr (r, s') \<Rightarrow> Inr (r, rebase g s'))"
proof (cases "require_role {admin, approver, editor} user \<and>
              (\<exists>cr. find_cr s cid = Some cr \<and> cr_status cr = approved)")
  case False
  then show ?thesis
    by (auto simp add: merge_change_request_def raise_same find_cr_def split: option.splits)
next
  case True
  then obtain cr where cr: "find_cr s cid = Some cr" "cr_status cr = approved"
    and rr: "require_role {admin, approver, editor} user"
    by blast
  have f: "find_cr (rebase g s) cid = Some cr"
    using cr by (simp add: find_cr_def)
  show ?thesis
  proof (cases "merge_files L cr (cr_files s cid) s")
    case (Inl s')
    then show ?thesis
      using cr rr f
      by (simp add: merge_change_request_def cr_files_rebase merge_files_rebase raise_partial_def)
  next
    case (Inr s')
    have c: "add_audit u a t r d (update_cr cid h (rebase g s')) =
               rebase g (add_audit u a t r d (update_cr cid h s'))" for u a t r d h
      by (simp add: update_cr_def add_audit_def rebase_def)
    have "merge_change_request L (rebase g s) cid user =
            Inr (merged, add_audit (uid user) ''cr.merge'' ''change_request'' (str_int cid)
               [(''file_count'', int (length (cr_files s cid)))]
               (update_cr cid (\<lambda>c. c\<lparr>cr_status := merged, cr_merged_at := Some (clock s)\<rparr>)
                  (rebase g s')))"
      using Inr cr rr f
      by (simp add: merge_change_request_def cr_files_rebase merge_files_rebase Let_def)
    moreover have "merge_change_request L s cid user =
            Inr (merged, add_audit (uid user) ''cr.merge'' ''change_request'' (str_int cid)
               [(''file_count'', int (length (cr_files s cid)))]
               (update_cr cid (\<lambda>c. c\<lparr>cr_status := merged, cr_merged_at := Some (clock s)\<rparr>)
                  s'))"
      using Inr cr rr by (simp add: merge_change_request_def Let_def)
    ultimately show ?thesis by (simp add: c)
  qed
qed

text \<open>
  Claim C8. The merge route never reads the base version reference of a staged
  operation: replacing the references of all staged operations by anything else
  (\<open>rebase g\<close>) changes neither the outcome of the merge nor the state it leaves, apart
  from the replaced references themselves. On an approved, mergeable change request the
  merge succeeds, and for every staged edit, whatever its base version reference, the
  staged content becomes the latest version of its path (next version number, hash of
  the staged content) and the canonical blob.
\<close>

theorem merge_ignores_base_version:
  "merge_change_request L (rebase g s) cid user =
     (case merge_change_request L s cid user of
        Inl (e, s') \<Rightarrow> Inl (e, rebase g s')
      | Inr (r, s') \<Rightarrow> Inr (r, rebase g s'))
   \<and> (role user \<in> {admin, approver, editor} \<and> find_cr s cid = Some cr \<and> cr_status cr = approved
        \<and> mergeable s (cr_files s cid) \<longrightarrow>
        (\<exists>s'. merge_change_request L s cid user = Inr (merged, s')
           \<and> (\<forall>f \<in> set (cr_files s cid). \<forall>k. crf_action f = edit \<and> staged_key f = Some k \<longrightarrow>
                 (\<exists>v content ct. s3_objects s k = Some (content, ct)
                    \<and> get_latest_version s' (crf_file_path f) = Some v
                    \<and> committed_as L cr (crf_file_path f) (next_ver s (crf_file_path f)) content v
                    \<and> get_object s' (crf_file_path f) = Some content))))"
proof (intro conjI impI)
  show "merge_change_request L (rebase g s) cid user =
     (case merge_change_request L s cid user of
        Inl (e, s') \<Rightarrow> Inl (e, rebase g s')
      | Inr (r, s') \<Rightarrow> Inr (r, rebase g s'))"
    by (rule merge_change_request_rebase)
next
  assume a: "role user \<in> {admin, approver, editor} \<and> find_cr s cid = Some cr
             \<and> cr_status cr = approved \<and> mergeable s (cr_files s cid)"
  then have "role user \<in> {admin, approver, editor}" "find_cr s cid = Some cr"
    "cr_status cr = approved" "mergeable s (cr_files s cid)"
    by simp_all
  from merge_change_request_mergeable [OF this, of L]
  obtain s' where m: "merge_change_request L s cid user = Inr (merged, s')"
    and o: "\<And>f. f \<in> set (cr_files s cid) \<Longrightarrow> merge_outcome L cr s s' f"
    by blast
  have "\<exists>v content ct. s3_objects s k = Some (content, ct)
          \<and> get_latest_version s' (crf_file_path f) = Some v
          \<and> committed_as L cr (crf_file_path f) (next_ver s (crf_file_path f)) content v
          \<and> get_object s' (crf_file_path f) = Some content"
    if f: "f \<in> set (cr_files s cid)" and e: "crf_action f = edit \<and> staged_key f = Some k" for f k
  proof -
    from e have "crf_action f \<noteq> delete" "staged_key f = Some k" by simp_all
    from merge_outcome_content [OF o [OF f] this]
    show ?thesis by (auto simp add: get_object_def)
  qed
  with m show "\<exists>s'. merge_change_request L s cid user = Inr (merged, s')
           \<and> (\<forall>f \<in> set (cr_files s cid). \<forall>k. crf_action f = edit \<and> staged_key f = Some k \<longrightarrow>
                 (\<exists>v content ct. s3_objects s k = Some (content, ct)
                    \<and> get_latest_version s' (crf_file_path f) = Some v
                    \<and> committed_as L cr (crf_file_path f) (next_ver s (crf_file_path f)) content v
                    \<and> get_object s' (crf_file_path f) = Some content))"
    by blast
qed

theorem merge_ignores_base_version_witness:
  "role bob \<in> {admin, approver, editor}
   \<and> find_cr approved_state 1 = Some (demo_cr 1 approved 1)
   \<and> cr_status (demo_cr 1 approved 1) = approved
   \<and> mergeable approved_state (cr_files approved_state 1)
   \<and> map crf_base_version_id (cr_files approved_state 1) = [Some 1, Some 3]
   \<and> map_option fv_id (get_latest_version approved_state ''a.txt'') = Some 2
   \<and> (\<exists>s'. merge_change_request lib0 approved_state 1 bob = Inr (merged, s')
         \<and> (\<exists>v. get_latest_version s' ''a.txt'' = Some v \<and> fv_version v = 3
                \<and> fv_content_hash v = ''sha256:new text'')
         \<and> get_object s' ''a.txt'' = Some ''new text'')"
proof -
  let ?row = "(demo_crf 1 1 ''a.txt'' edit (Some ''_staging/k1''))\<lparr>crf_base_version_id := Some 1\<rparr>"
  have r: "role bob \<in> {admin, approver, editor}"
    by (simp add: bob_def)
  have f: "find_cr approved_state 1 = Some (demo_cr 1 approved 1)"
    by (simp add: find_cr_def approved_state_defs)
  have st: "cr_status (demo_cr 1 approved 1) = approved"
    by (simp add: demo_cr_def)
  have fs: "cr_files approved_state 1 =
      [?row, (demo_crf 2 1 ''old.txt'' delete None)\<lparr>crf_base_version_id := Some 3\<rparr>]"
    by (simp add: cr_files_def approved_state_defs)
  have mg: "mergeable approved_state (cr_files approved_state 1)"
    unfolding fs
    by (simp add: mergeable_def staged_key_def startswith_def approved_state_defs)
  have bases: "map crf_base_version_id (cr_files approved_state 1) = [Some 1, Some 3]"
    unfolding fs by (simp add: demo_crf_def)
  have latest: "map_option fv_id (get_latest_version approved_state ''a.txt'') = Some 2"
    by (simp add: get_latest_version_def approved_state_defs)
  have row: "?row \<in> set (cr_files approved_state 1)"
    "crf_action ?row = edit \<and> staged_key ?row = Some ''_staging/k1''"
    "crf_file_path ?row = ''a.txt''"
    unfolding fs by (simp_all add: demo_crf_def staged_key_def)
  have blob: "s3_objects approved_state ''_staging/k1'' = Some (''new text'', ''text/plain'')"
    by (simp add: approved_state_defs)
  have nv: "next_ver approved_state ''a.txt'' = 3"
    by (simp add: next_ver_def max_version_def approved_state_defs)
  from merge_ignores_base_version [of lib0 "\<lambda>f. None" approved_state 1 bob "demo_cr 1 approved 1"]
       r f st mg
  obtain s' where m: "merge_change_request lib0 approved_state 1 bob = Inr (merged, s')"
    and o: "\<forall>f \<in> set (cr_files approved_state 1). \<forall>k.
              crf_action f = edit \<and> staged_key f = Some k \<longrightarrow>
                 (\<exists>v content ct. s3_objects approved_state k = Some (content, ct)
                    \<and> get_latest_version s' (crf_file_path f) = Some v
                    \<and> committed_as lib0 (demo_cr 1 approved 1) (crf_file_path f)
                         (next_ver approved_state (crf_file_path f)) content v
                    \<and> get_object s' (crf_file_path f) = Some content)"
    by blast
  from o row(1) row(2)
  obtain v content ct where "s3_objects approved_state ''_staging/k1'' = Some (content, ct)"
    and l: "get_latest_version s' (crf_file_path ?row) = Some v"
    and c: "committed_as lib0 (demo_cr 1 approved 1) (crf_file_path ?row)
              (next_ver approved_state (crf_file_path ?row)) content v"
    and g: "get_object s' (crf_file_path ?row) = Some content"
    by blast
  with blob have content: "content = ''new text''" by simp
  from l have l': "get_latest_version s' ''a.txt'' = Some v" by (simp only: row(3))
  from g have g': "get_object s' ''a.txt'' = Some ''new text''" by (simp only: row(3) content)
  from c have "fv_version v = 3 \<and> fv_content_hash v = ''sha256:new text''"
    by (simp add: committed_as_def row(3) nv content lib0_def)
  with m l' g' have "\<exists>s'. merge_change_request lib0 approved_state 1 bob = Inr (merged, s')
         \<and> (\<exists>v. get_latest_version s' ''a.txt'' = Some v \<and> fv_version v = 3
                \<and> fv_content_hash v = ''sha256:new text'')
         \<and> get_object s' ''a.txt'' = Some ''new text''"
    by blast
  with r f st mg bases latest show ?thesis by blast
qed

section \<open>Staging a create, review and merge\<close>

lemma map_filter_append:
  "List.map_filter h (xs @ ys) = List.map_filter h xs @ List.map_filter h ys"
  by (simp add: List.map_filter_def)

lemma distinct_map_filter_filter:
  "distinct (List.map_filter h xs) \<Longrightarrow> distinct (List.map_filter h (filter P xs))"
  by (induction xs) (auto simp add: set_map_filter_iff split: option.splits)

lemma distinct_map_filter_inj:
  assumes "distinct (List.map_filter h xs)" "x \<in> set xs" "y \<in> set xs" "h x = Some k" "h y = Some k"
  shows "x = y"
  using assms by (induction xs) (auto simp add: set_map_filter_iff split: option.splits)

lemma remove_entries_objects:
  "s3_objects (remove_entries es s) x =
     (if \<exists>e \<in> set es. staged_key e = Some x then None else s3_objects s x)"
proof (induction es arbitrary: s)
  case Nil
  then show ?case by simp
next
  case (Cons e es)
  have "s3_objects (db_delete_crf e (discard_staged e s)) x =
          (if staged_key e = Some x then None else s3_objects s x)"
    by (auto simp add: discard_staged_def staged_key_def split: option.splits)
  with Cons.IH [of "db_delete_crf e (discard_staged e s)"] show ?case by auto
qed

lemma mergeable_cong:
  assumes "mergeable s fs" "\<And>f k. f \<in> set fs \<Longrightarrow> staged_key f = Some k \<Longrightarrow> s3_objects s' k = s3_objects s k"
  shows "mergeable s' fs"
proof -
  have "case staged_key f of None \<Rightarrow> True
        | Some k \<Rightarrow> crf_action f \<noteq> delete \<and> startswith k ''_staging/'' \<and> s3_objects s' k \<noteq> None"
    if f: "f \<in> set fs" for f
  proof (cases "staged_key f")
    case None
    then show ?thesis by simp
  next
    case (Some k)
    from assms(1) f Some have "crf_action f \<noteq> delete \<and> startswith k ''_staging/'' \<and> s3_objects s k \<noteq> None"
      by (fastforce simp add: mergeable_def)
    with assms(2) [OF f Some] Some show ?thesis by simp
  qed
  with assms(1) show ?thesis by (simp add: mergeable_def)
qed


lemma cr_files_append_row:
  assumes "change_request_files s' = filter P (change_request_files s) @ [row]"
    and "crf_change_request_id row = cid"
  shows "cr_files s' cid = filter P (cr_files s cid) @ [row]"
  using assms by (simp add: cr_files_def conj_commute)

lemma add_file_create:
  assumes f: "find_cr s cid = Some cr"
    and st: "cr_status cr \<in> {draft, rejected}"
    and ro: "role user \<in> {admin, approver, editor}"
    and au: "cr_author_id cr = uid user \<or> role user = admin"
    and p: "strip_slash path = p" "p \<noteq> []" "\<not> startswith p ''_''"
    and mg: "mergeable s (cr_files s cid)"
    and fresh: "\<forall>f \<in> set (cr_files s cid).
                  staged_key f \<noteq> Some (''_staging/'' @ uuid4_hex L (uuid_count s))"
    and nop: "\<forall>f \<in> set (cr_files s cid). crf_file_path f \<noteq> p"
  shows "\<exists>s1 row.
       add_file_to_cr L s cid
         \<lparr>afr_file_path = path, afr_action = ''create'', afr_content = Some C\<rparr> user =
         Inr ((crf_id row, p, create), s1)
     \<and> row \<in> set (cr_files s1 cid) \<and> crf_file_path row = p \<and> crf_action row = create
     \<and> staged_key row = Some (''_staging/'' @ uuid4_hex L (uuid_count s))
     \<and> s3_objects s1 (''_staging/'' @ uuid4_hex L (uuid_count s)) =
           Some (utf8_encode L C, guess_content_type p)
     \<and> mergeable s1 (cr_files s1 cid)
     \<and> change_requests s1 = change_requests s \<and> file_versions s1 = file_versions s
     \<and> users s1 = users s"
proof -
  define K where "K = ''_staging/'' @ uuid4_hex L (uuid_count s)"
  define fs where "fs = cr_files s cid"
  define ex where "ex = filter (\<lambda>f. crf_file_path f = p) fs"
  define sB where "sB = snd (stage_content L p (utf8_encode L C) (remove_entries ex s))"
  define row where "row = fst (db_add_crf cid p create (Some K) None sB)"
  define s1 where "s1 = snd (db_add_crf cid p create (Some K) None sB)"
  define rest where "rest = filter (\<lambda>f. crf_id f \<notin> crf_id ` set ex) fs"
  have e: "add_file_to_cr L s cid
         \<lparr>afr_file_path = path, afr_action = ''create'', afr_content = Some C\<rparr> user =
         Inr ((crf_id row, p, create), s1)"
  proof -
    have "filter (\<lambda>f. crf_file_path f = strip_slash path) (cr_files s cid) = []"
      using nop p(1) by (simp add: filter_empty_conv)
    then show ?thesis
      using f st ro au p(1,2)
      unfolding row_def s1_def sB_def ex_def fs_def K_def
      by (auto simp add: add_file_to_cr_def require_role_def FileAction_of_def Let_def split_beta)
  qed
  have files: "cr_files s1 cid = rest @ [row]"
    unfolding rest_def fs_def
  proof (rule cr_files_append_row)
    show "change_request_files s1 =
            filter (\<lambda>f. crf_id f \<notin> crf_id ` set ex) (change_request_files s) @ [row]"
      unfolding s1_def row_def sB_def by (simp add: remove_entries_files)
    show "crf_change_request_id row = cid"
      unfolding row_def by simp
  qed
  have Kne: "K \<noteq> []" and Kpre: "startswith K ''_staging/''"
    unfolding K_def by (simp_all add: startswith_def)
  have rowp: "crf_file_path row = p" "crf_action row = create" "staged_key row = Some K"
    unfolding row_def using Kne by (simp_all add: staged_key_def)
  have obj: "s3_objects s1 x =
      (if x = K then Some (utf8_encode L C, guess_content_type p)
       else if \<exists>e \<in> set ex. staged_key e = Some x then None else s3_objects s x)" for x
    unfolding s1_def sB_def K_def by (simp add: remove_entries_objects)
  have frame: "change_requests s1 = change_requests s" "file_versions s1 = file_versions s"
    "users s1 = users s"
    unfolding s1_def sB_def by simp_all
  have sub: "set rest \<subseteq> set fs"
    unfolding rest_def by (rule filter_is_subset)
  have restp: "crf_file_path g \<noteq> p" if "g \<in> set rest" for g
  proof
    assume "crf_file_path g = p"
    moreover from that have "g \<in> set fs" "crf_id g \<notin> crf_id ` set ex"
      unfolding rest_def by simp_all
    ultimately show False unfolding ex_def by simp
  qed
  have d1: "distinct (map crf_file_path fs)"
    and d2: "distinct (List.map_filter staged_key fs)"
    using mg unfolding fs_def by (simp_all add: mergeable_def)
  have fresh': "staged_key g \<noteq> Some K" if "g \<in> set fs" for g
    using fresh that unfolding fs_def K_def by blast
  have keep: "s3_objects s1 k = s3_objects s k"
    if g: "g \<in> set rest" and k: "staged_key g = Some k" for g k
  proof -
    from g sub have g': "g \<in> set fs" by blast
    with k have kK: "k \<noteq> K" using fresh' [OF g'] by auto
    have "\<not> (\<exists>e \<in> set ex. staged_key e = Some k)"
    proof
      assume "\<exists>e \<in> set ex. staged_key e = Some k"
      then obtain e where e: "e \<in> set fs" "crf_file_path e = p" "staged_key e = Some k"
        unfolding ex_def by auto
      from d2 e(1) g' e(3) k have "e = g" by (rule distinct_map_filter_inj)
      with e(2) restp [OF g] show False by simp
    qed
    with kK show ?thesis by (simp only: obj if_False)
  qed
  have "distinct (map crf_file_path rest)"
    unfolding rest_def using d1 by (rule distinct_map_filter)
  moreover have "p \<notin> crf_file_path ` set rest"
    using restp by blast
  ultimately have m1: "distinct (map crf_file_path (rest @ [row]))"
    by (simp add: rowp(1))
  have "distinct (List.map_filter staged_key rest)"
    unfolding rest_def using d2 by (rule distinct_map_filter_filter)
  moreover have "K \<notin> set (List.map_filter staged_key rest)"
    using fresh' sub by (auto simp add: set_map_filter_iff)
  ultimately have m2: "distinct (List.map_filter staged_key (rest @ [row]))"
    by (simp add: map_filter_append rowp(3))
  have m3: "\<not> startswith (crf_file_path g) ''_''
           \<and> (case staged_key g of
                 None \<Rightarrow> True
               | Some k \<Rightarrow> crf_action g \<noteq> delete \<and> startswith k ''_staging/''
                            \<and> s3_objects s1 k \<noteq> None)"
    if g: "g \<in> set (rest @ [row])" for g
  proof (cases "g = row")
    case True
    have "s3_objects s1 K \<noteq> None" by (simp add: obj)
    with True p(3) Kpre show ?thesis by (simp add: rowp)
  next
    case False
    with g have gr: "g \<in> set rest" by simp
    with sub have g': "g \<in> set (cr_files s cid)" unfolding fs_def by blast
    show ?thesis
    proof (cases "staged_key g")
      case None
      with mg g' show ?thesis by (simp add: mergeable_def)
    next
      case (Some k)
      from mg g' Some have "\<not> startswith (crf_file_path g) ''_'' \<and> crf_action g \<noteq> delete
          \<and> startswith k ''_staging/'' \<and> s3_objects s k \<noteq> None"
        by (fastforce simp add: mergeable_def)
      with keep [OF gr Some] Some show ?thesis by simp
    qed
  qed
  have mg1: "mergeable s1 (cr_files s1 cid)"
    unfolding files mergeable_def
    by (intro conjI ballI m1 m2) (rule m3 [THEN conjunct1], assumption, rule m3 [THEN conjunct2], assumption)
  have a1: "row \<in> set (cr_files s1 cid)"
    unfolding files by simp
  have a2: "s3_objects s1 K = Some (utf8_encode L C, guess_content_type p)"
    by (simp add: obj)
  show ?thesis
    using e a1 rowp a2 mg1 frame unfolding K_def by blast
qed

text \<open>
  The hypothesis that the change request holds no operation for the path is needed:
  a create of a path that the change request already holds an operation for is answered
  with an unhandled error, through \<^verbatim>\<open>add_file_to_cr\<close> and through \<^verbatim>\<open>save_file\<close>
  alike, and the row that was staged first stays.
\<close>

lemma create_over_staged_row:
  "(case add_file_to_cr lib0 draft_state 1
           \<lparr>afr_file_path = ''docs/readme.md'', afr_action = ''create'',
            afr_content = Some ''hello''\<rparr> alice of
      Inl e \<Rightarrow> False
    | Inr (r, s1) \<Rightarrow>
        (case add_file_to_cr lib0 s1 1
                \<lparr>afr_file_path = ''docs/readme.md'', afr_action = ''create'',
                 afr_content = Some ''hello again''\<rparr> alice of
           Inl (e, s2) \<Rightarrow> e = HTTPException 500 ''Internal Server Error''
                            \<and> map crf_file_path (cr_files s2 1) = [''docs/readme.md'']
         | Inr r \<Rightarrow> False))
   \<and> (case save_file lib0 demo_state
             \<lparr>sfr_path = ''docs/readme.md'', sfr_content = ''hello'', sfr_message = []\<rparr> alice of
        Inl e \<Rightarrow> False
      | Inr (r, s1) \<Rightarrow>
          (case save_file lib0 s1
                  \<lparr>sfr_path = ''docs/readme.md'', sfr_content = ''hello again'',
                   sfr_message = []\<rparr> alice of
             Inl (e, s2) \<Rightarrow> e = HTTPException 500 ''Internal Server Error''
           | Inr r \<Rightarrow> False))"
  by code_simp



lemma committed_as_cong:
  assumes "committed_as L cr' p n b v" "cr_id cr' = cr_id cr" "cr_title cr' = cr_title cr"
    "cr_author_id cr' = cr_author_id cr"
  shows "committed_as L cr p n b v"
  using assms by (simp add: committed_as_def)

lemma submit_review_chain:
  assumes f: "find_cr s1 cid = Some cr" and st: "cr_status cr \<in> {draft, rejected}"
    and ro: "role author \<in> {admin, approver, editor}"
    and au: "cr_author_id cr = uid author \<or> role author = admin"
    and rr: "role reviewer \<in> {admin, approver}"
    and ra: "cr_author_id cr \<noteq> uid reviewer \<or> role reviewer = admin"
    and ne: "cr_files s1 cid \<noteq> []"
  shows "\<exists>s2 s3 cr3. submit_for_review s1 cid author = Inr (pending_review, s2)
     \<and> review_change_request s2 cid \<lparr>rr_action = ''approve'', rr_comment = comment\<rparr> reviewer =
           Inr (approved, s3)
     \<and> find_cr s3 cid = Some cr3 \<and> cr_status cr3 = approved \<and> cr_id cr3 = cr_id cr
     \<and> cr_title cr3 = cr_title cr \<and> cr_author_id cr3 = cr_author_id cr
     \<and> change_request_files s3 = change_request_files s1 \<and> file_versions s3 = file_versions s1
     \<and> s3_objects s3 = s3_objects s1 \<and> users s3 = users s1"
proof -
  define g1 :: "ChangeRequest \<Rightarrow> ChangeRequest" where "g1 = (\<lambda>c. c\<lparr>cr_status := pending_review, cr_review_comment := None,
                               cr_reviewer_id := None, cr_reviewed_at := None\<rparr>)"
  define s2 where "s2 = add_audit (uid author) ''cr.submit'' ''change_request'' (str_int cid) []
                          (update_cr cid g1 s1)"
  define cr2 where "cr2 = (g1 cr)\<lparr>cr_updated_at := clock s1\<rparr>"
  define g2 :: "ChangeRequest \<Rightarrow> ChangeRequest" where "g2 = (\<lambda>c. c\<lparr>cr_status := approved, cr_reviewer_id := Some (uid reviewer),
                               cr_review_comment := Some comment, cr_reviewed_at := Some (clock s2)\<rparr>)"
  define s3 where "s3 = add_audit (uid reviewer) (''cr.'' @ ''approve'') ''change_request''
                          (str_int cid) [] (update_cr cid g2 s2)"
  define cr3 where "cr3 = (g2 cr2)\<lparr>cr_updated_at := clock s2\<rparr>"
  have id: "cr_id cr = cid" using f by (rule find_cr_id)
  have e1: "submit_for_review s1 cid author = Inr (pending_review, s2)"
    using f st ro au ne unfolding s2_def g1_def
    by (auto simp add: submit_for_review_def require_role_def Let_def)
  have "find_cr s2 cid = find_cr (update_cr cid g1 s1) cid"
    unfolding s2_def by (rule find_cr_cong) simp
  also have "\<dots> = map_option (\<lambda>c. if cr_id c = cid then (g1 c)\<lparr>cr_updated_at := clock s1\<rparr> else c)
                      (find_cr s1 cid)"
    by (rule find_cr_update_cr) (simp add: g1_def)
  finally have f2: "find_cr s2 cid = Some cr2"
    unfolding cr2_def using f id by simp
  have p2: "cr_status cr2 = pending_review" "cr_author_id cr2 = cr_author_id cr"
    "cr_id cr2 = cid" "cr_title cr2 = cr_title cr"
    unfolding cr2_def g1_def using id by simp_all
  have e2: "review_change_request s2 cid \<lparr>rr_action = ''approve'', rr_comment = comment\<rparr> reviewer =
           Inr (approved, s3)"
    using f2 p2(1,2) rr ra unfolding s3_def g2_def
    by (auto simp add: review_change_request_def require_role_def Let_def)
  have "find_cr s3 cid = find_cr (update_cr cid g2 s2) cid"
    unfolding s3_def by (rule find_cr_cong) simp
  also have "\<dots> = map_option (\<lambda>c. if cr_id c = cid then (g2 c)\<lparr>cr_updated_at := clock s2\<rparr> else c)
                      (find_cr s2 cid)"
    by (rule find_cr_update_cr) (simp add: g2_def)
  finally have f3: "find_cr s3 cid = Some cr3"
    unfolding cr3_def using f2 p2(3) by simp
  have p3: "cr_status cr3 = approved" "cr_id cr3 = cr_id cr" "cr_title cr3 = cr_title cr"
    "cr_author_id cr3 = cr_author_id cr"
    unfolding cr3_def g2_def using p2 id by simp_all
  have fr: "change_request_files s3 = change_request_files s1" "file_versions s3 = file_versions s1"
    "s3_objects s3 = s3_objects s1" "users s3 = users s1"
    unfolding s3_def s2_def by simp_all
  show ?thesis
    using e1 e2 f3 p3 fr by blast
qed

lemma get_file_content_latest:
  assumes "get_latest_version s p = Some v" "\<not> fv_is_delete v" "s3_objects s p = Some (b, ct)"
  shows "get_file_content L s p None =
     Inr (\<lparr>fd_path = p,
           fd_content = (if is_text_file p then Some (utf8_decode L b) else None),
           fd_size = int (length b), fd_version = fv_version v,
           fd_content_hash = fv_content_hash v,
           fd_author = map_option username (fv_author s v),
           fd_author_id = Some (fv_author_id v), fd_message = fv_message v,
           fd_is_binary = (\<not> is_text_file p), fd_created_at = Some (fv_created_at v)\<rparr>, s)"
  using assms by (simp add: get_file_content_def get_object_def Let_def)

lemma create_and_merge_latest:
  assumes f: "find_cr s cid = Some cr"
    and st: "cr_status cr \<in> {draft, rejected}"
    and ro: "role author \<in> {admin, approver, editor}"
    and au: "cr_author_id cr = uid author \<or> role author = admin"
    and rr: "role reviewer \<in> {admin, approver}"
    and ra: "cr_author_id cr \<noteq> uid reviewer \<or> role reviewer = admin"
    and rm: "role merger \<in> {admin, approver, editor}"
    and p: "strip_slash path = p" "p \<noteq> []" "\<not> startswith p ''_''"
    and mg: "mergeable s (cr_files s cid)"
    and fresh: "\<forall>f \<in> set (cr_files s cid).
                  staged_key f \<noteq> Some (''_staging/'' @ uuid4_hex L (uuid_count s))"
    and nop: "\<forall>f \<in> set (cr_files s cid). crf_file_path f \<noteq> p"
  shows "\<exists>s4 v. create_and_merge L s cid path C author reviewer merger = Some s4
     \<and> get_latest_version s4 p = Some v
     \<and> committed_as L cr p (next_ver s p) (utf8_encode L C) v
     \<and> s3_objects s4 p = Some (utf8_encode L C, guess_content_type p)"
proof -
  define K where "K = ''_staging/'' @ uuid4_hex L (uuid_count s)"
  from add_file_create [OF f st ro au p mg fresh nop, of C]
  obtain s1 row where e1: "add_file_to_cr L s cid
         \<lparr>afr_file_path = path, afr_action = ''create'', afr_content = Some C\<rparr> author =
         Inr ((crf_id row, p, create), s1)"
    and row: "row \<in> set (cr_files s1 cid)" "crf_file_path row = p" "crf_action row = create"
      "staged_key row = Some K"
    and blob: "s3_objects s1 K = Some (utf8_encode L C, guess_content_type p)"
    and mg1: "mergeable s1 (cr_files s1 cid)"
    and fr1: "change_requests s1 = change_requests s" "file_versions s1 = file_versions s"
    unfolding K_def by blast
  have f1: "find_cr s1 cid = Some cr"
    using f find_cr_cong [OF fr1(1), of cid] by simp
  from row(1) have ne: "cr_files s1 cid \<noteq> []" by auto
  from submit_review_chain [OF f1 st ro au rr ra ne, of "[]"]
  obtain s2 s3 cr3 where e2: "submit_for_review s1 cid author = Inr (pending_review, s2)"
    and e3: "review_change_request s2 cid \<lparr>rr_action = ''approve'', rr_comment = []\<rparr> reviewer =
               Inr (approved, s3)"
    and f3: "find_cr s3 cid = Some cr3" "cr_status cr3 = approved"
    and c3: "cr_id cr3 = cr_id cr" "cr_title cr3 = cr_title cr" "cr_author_id cr3 = cr_author_id cr"
    and fr3: "change_request_files s3 = change_request_files s1" "file_versions s3 = file_versions s1"
      "s3_objects s3 = s3_objects s1"
    by blast
  have files3: "cr_files s3 cid = cr_files s1 cid"
    using fr3(1) by (rule cr_files_cong)
  have "mergeable s3 (cr_files s1 cid)"
    using mg1 by (rule mergeable_cong) (simp only: fr3(3))
  then have mg3: "mergeable s3 (cr_files s3 cid)"
    by (simp only: files3)
  from merge_change_request_mergeable [OF rm f3 mg3, of L]
  obtain s4 where e4: "merge_change_request L s3 cid merger = Inr (merged, s4)"
    and o: "\<And>g. g \<in> set (cr_files s3 cid) \<Longrightarrow> merge_outcome L cr3 s3 s4 g"
    by blast
  from row(1) have "merge_outcome L cr3 s3 s4 row"
    by (intro o) (simp only: files3)
  moreover from row(3) have "crf_action row \<noteq> delete" by simp
  ultimately obtain v content ct where b3: "s3_objects s3 K = Some (content, ct)"
    and l: "get_latest_version s4 (crf_file_path row) = Some v"
    and c: "committed_as L cr3 (crf_file_path row) (next_ver s3 (crf_file_path row)) content v"
    and ob: "s3_objects s4 (crf_file_path row) =
               Some (content, guess_content_type (crf_file_path row))"
    using merge_outcome_content [of L cr3 s3 s4 row K] row(4) by blast
  from b3 blob have content: "content = utf8_encode L C"
    by (simp add: fr3(3))
  have "file_versions s3 = file_versions s"
    by (simp only: fr3(2) fr1(2))
  then have "rows_of s3 p = rows_of s p" by (rule rows_of_cong)
  then have nv: "next_ver s3 p = next_ver s p" by (rule next_ver_cong)
  from c have "committed_as L cr3 p (next_ver s p) (utf8_encode L C) v"
    by (simp only: row(2) nv content)
  then have c': "committed_as L cr p (next_ver s p) (utf8_encode L C) v"
    using c3 by (rule committed_as_cong)
  have l': "get_latest_version s4 p = Some v"
    using l by (simp only: row(2))
  have ob': "s3_objects s4 p = Some (utf8_encode L C, guess_content_type p)"
    using ob by (simp only: row(2) content)
  have "create_and_merge L s cid path C author reviewer merger = Some s4"
    by (simp add: create_and_merge_def e1 e2 e3 e4)
  with l' c' ob' show ?thesis by blast
qed

section \<open>Round trip of a created file\<close>

text \<open>
  Claim C5, as the routes have it. Let the change request be in draft or rejected and
  mergeable, the author, the reviewer and the merger be allowed to act, and the UUID
  drawn for the staged blob be new among the staged keys of the change request. Let
  \<open>p\<close> be the path with the slashes at its ends stripped, not empty and outside the
  reserved key space, let the change request hold no operation for \<open>p\<close> yet, and let
  decoding undo the encoding of the content \<open>C\<close>. Then staging a create of the path
  with \<open>C\<close>, submitting, approving and merging succeed, the latest version of \<open>p\<close>
  is the new row with the next version number and the SHA-256 digest of the encoded
  content, and \<^verbatim>\<open>get_file_content\<close> of \<open>p\<close> returns that version, that digest and
  the size of the encoded content, and as content exactly \<open>C\<close> when \<open>p\<close> has a textual
  content type and none when it has a binary one.
\<close>

theorem create_merge_roundtrip:
  assumes "find_cr s cid = Some cr"
    and "cr_status cr \<in> {draft, rejected}"
    and "role author \<in> {admin, approver, editor}"
    and "cr_author_id cr = uid author \<or> role author = admin"
    and "role reviewer \<in> {admin, approver}"
    and "cr_author_id cr \<noteq> uid reviewer \<or> role reviewer = admin"
    and "role merger \<in> {admin, approver, editor}"
    and "strip_slash path = p" and "p \<noteq> []" and "\<not> startswith p ''_''"
    and "mergeable s (cr_files s cid)"
    and "\<forall>f \<in> set (cr_files s cid).
           staged_key f \<noteq> Some (''_staging/'' @ uuid4_hex L (uuid_count s))"
    and "\<forall>f \<in> set (cr_files s cid). crf_file_path f \<noteq> p"
    and "utf8_decode L (utf8_encode L C) = C"
  shows "\<exists>s4 v fd. create_and_merge L s cid path C author reviewer merger = Some s4
     \<and> get_latest_version s4 p = Some v
     \<and> fv_version v = get_next_version s p
     \<and> fv_content_hash v = sha256_hexdigest L (utf8_encode L C)
     \<and> get_file_content L s4 p None = Inr (fd, s4)
     \<and> fd_content fd = (if is_text_file p then Some C else None)
     \<and> fd_size fd = int (length (utf8_encode L C))
     \<and> fd_content_hash fd = sha256_hexdigest L (utf8_encode L C)
     \<and> fd_version fd = get_next_version s p"
proof -
  from create_and_merge_latest [OF assms(1-13), of C]
  obtain s4 v where m: "create_and_merge L s cid path C author reviewer merger = Some s4"
    and l: "get_latest_version s4 p = Some v"
    and c: "committed_as L cr p (next_ver s p) (utf8_encode L C) v"
    and o: "s3_objects s4 p = Some (utf8_encode L C, guess_content_type p)"
    by blast
  from c have v: "fv_version v = get_next_version s p"
    "fv_content_hash v = sha256_hexdigest L (utf8_encode L C)" "\<not> fv_is_delete v"
    by (simp_all add: committed_as_def get_next_version_next_ver)
  from get_file_content_latest [OF l v(3) o, of L]
  obtain fd where g: "get_file_content L s4 p None = Inr (fd, s4)"
    and fd: "fd_content fd = (if is_text_file p then Some (utf8_decode L (utf8_encode L C)) else None)"
      "fd_content_hash fd = fv_content_hash v" "fd_version fd = fv_version v"
      "fd_size fd = int (length (utf8_encode L C))"
    by simp
  from fd assms(14) v have "fd_content fd = (if is_text_file p then Some C else None)"
    "fd_content_hash fd = sha256_hexdigest L (utf8_encode L C)"
    "fd_version fd = get_next_version s p"
    by simp_all
  with m l v(1,2) g fd(4) show ?thesis by blast
qed

theorem create_merge_roundtrip_witness:
  "find_cr draft_state 1 = Some (demo_cr 1 draft 1)
   \<and> cr_status (demo_cr 1 draft 1) \<in> {draft, rejected}
   \<and> role alice \<in> {admin, approver, editor}
   \<and> cr_author_id (demo_cr 1 draft 1) = uid alice
   \<and> role bob \<in> {admin, approver}
   \<and> cr_author_id (demo_cr 1 draft 1) \<noteq> uid bob
   \<and> strip_slash ''/docs/readme.md'' = ''docs/readme.md''
   \<and> \<not> startswith ''docs/readme.md'' ''_''
   \<and> mergeable draft_state (cr_files draft_state 1)
   \<and> cr_files draft_state 1 = []
   \<and> is_text_file ''docs/readme.md''
   \<and> utf8_decode lib0 (utf8_encode lib0 ''hello'') = ''hello''
   \<and> (\<exists>s4 fd. create_and_merge lib0 draft_state 1 ''/docs/readme.md'' ''hello'' alice bob alice =
                  Some s4
          \<and> get_file_content lib0 s4 ''docs/readme.md'' None = Inr (fd, s4)
          \<and> fd_content fd = Some ''hello''
          \<and> fd_content_hash fd = ''sha256:hello''
          \<and> fd_version fd = 1)"
proof -
  have h1: "find_cr draft_state 1 = Some (demo_cr 1 draft 1)"
    by (simp add: find_cr_def draft_state_def demo_state_def demo_cr_def)
  have h2: "cr_status (demo_cr 1 draft 1) \<in> {draft, rejected}"
    by (simp add: demo_cr_def)
  have h3: "role alice \<in> {admin, approver, editor}"
    by (simp add: alice_def)
  have h4: "cr_author_id (demo_cr 1 draft 1) = uid alice"
    by (simp add: demo_cr_def alice_def)
  have h5: "role bob \<in> {admin, approver}"
    by (simp add: bob_def)
  have h6: "cr_author_id (demo_cr 1 draft 1) \<noteq> uid bob"
    by (simp add: demo_cr_def bob_def)
  have h8: "strip_slash ''/docs/readme.md'' = ''docs/readme.md''"
    by (simp add: strip_slash_def)
  have h9: "''docs/readme.md'' \<noteq> []" by simp
  have h10: "\<not> startswith ''docs/readme.md'' ''_''"
    by (simp add: startswith_def)
  have fs: "cr_files draft_state 1 = []"
    by (simp add: cr_files_def draft_state_def demo_state_def)
  have h11: "mergeable draft_state (cr_files draft_state 1)"
    by (simp add: fs mergeable_def)
  have h12: "\<forall>f \<in> set (cr_files draft_state 1).
         staged_key f \<noteq> Some (''_staging/'' @ uuid4_hex lib0 (uuid_count draft_state))"
    by (simp add: fs)
  have h13: "is_text_file ''docs/readme.md''"
    by (simp add: is_text_file_def guess_content_type_def rsplit_last_def lower_def
        lower_char_def content_types_def startswith_def)
  have h14: "utf8_decode lib0 (utf8_encode lib0 ''hello'') = ''hello''"
    by (simp add: lib0_def)
  have nv: "get_next_version draft_state ''docs/readme.md'' = 1"
    by (simp add: get_next_version_def max_version_def draft_state_def demo_state_def)
  have sha: "sha256_hexdigest lib0 (utf8_encode lib0 ''hello'') = ''sha256:hello''"
    by (simp add: lib0_def)
  have h12': "\<forall>f \<in> set (cr_files draft_state 1). crf_file_path f \<noteq> ''docs/readme.md''"
    by (simp add: fs)
  from create_merge_roundtrip [OF h1 h2 h3 disjI1 [OF h4] h5 disjI1 [OF h6] h3 h8 h9 h10 h11 h12
         h12' h14]
  have "\<exists>s4 fd. create_and_merge lib0 draft_state 1 ''/docs/readme.md'' ''hello'' alice bob alice =
                  Some s4
          \<and> get_file_content lib0 s4 ''docs/readme.md'' None = Inr (fd, s4)
          \<and> fd_content fd = Some ''hello''
          \<and> fd_content_hash fd = ''sha256:hello''
          \<and> fd_version fd = 1"
    unfolding nv sha by (simp add: h13) blast
  with h1 h2 h3 h4 h5 h6 h8 h10 h11 fs h13 h14 show ?thesis by blast
qed

text \<open>
  The claim as written, for every path, fails for a path of a binary content type:
  after the same four requests \<^verbatim>\<open>get_file_content\<close> returns no content for
  \<^verbatim>\<open>logo.png\<close> (only its size, version and hash). It also fails for a path written
  with a leading slash: the operation is staged and merged under the stripped path, and
  \<^verbatim>\<open>get_file_content\<close> of the path as written finds nothing.
\<close>

theorem create_merge_roundtrip_counterexample:
  "(case create_and_merge lib0 draft_state 1 ''logo.png'' ''PNG'' alice bob alice of
      None \<Rightarrow> False
    | Some s4 \<Rightarrow>
        (case get_file_content lib0 s4 ''logo.png'' None of
           Inl e \<Rightarrow> False
         | Inr (fd, s5) \<Rightarrow> fd_content fd = None \<and> fd_size fd = 3 \<and> fd_version fd = 1))
   \<and> (case create_and_merge lib0 draft_state 1 ''/docs/readme.md'' ''hello'' alice bob alice of
        None \<Rightarrow> False
      | Some s4 \<Rightarrow>
          (case get_file_content lib0 s4 ''/docs/readme.md'' None of
             Inl (e, s5) \<Rightarrow> e = HTTPException 404 ''File not found''
           | Inr r \<Rightarrow> False))"
  by code_simp

section \<open>Tombstones\<close>






end
